theory Spec2Isabelle
  imports
    Main
    "HOL-Library.Char_ord"
    "HOL-Library.List_Lexorder"
    "HOL-Library.Product_Lexorder"
    "HOL-Library.Multiset"
begin

section \<open>Values of the host language\<close>

text \<open>
  The service (\<^verbatim>\<open>src/services/cumulative-quiz.service.ts\<close>) handles quiz data as
  untyped JSON (\<^verbatim>\<open>any\<close>). A JSON value is modelled by the datatype below; a
  JavaScript value that may be \<^verbatim>\<open>undefined\<close> is a \<open>json option\<close>, with \<open>None\<close>
  for \<^verbatim>\<open>undefined\<close>. Numbers are modelled at the integers (answer indices, offsets
  in whole seconds); doubles with a fractional part are outside the model. An object
  is an association list that holds each key once, as a parsed JSON object does.
\<close>

datatype json =
    JNull
  | JBool bool
  | JNum int
  | JStr string
  | JArr "json list"
  | JObj "(string \<times> json) list"

type_synonym jsval = "json option"

text \<open>Exceptions of the service: \<^verbatim>\<open>new Error(msg)\<close>, a \<^verbatim>\<open>TypeError\<close> raised by a
  property read on \<^verbatim>\<open>null\<close> or \<^verbatim>\<open>undefined\<close>, and a rejected \<^verbatim>\<open>pool.query\<close>.\<close>

datatype error = Error string | TypeError string | QueryError string

text \<open>\<^verbatim>\<open>error.message\<close>\<close>

fun message :: "error \<Rightarrow> string" where
  "message (Error m) = m"
| "message (TypeError m) = m"
| "message (QueryError m) = m"

text \<open>Truthiness (\<^verbatim>\<open>ToBoolean\<close>): \<^verbatim>\<open>undefined\<close>, \<^verbatim>\<open>null\<close>, \<^verbatim>\<open>false\<close>, \<^verbatim>\<open>0\<close> and
  the empty string are falsy, every other value is truthy.\<close>

fun truthy :: "jsval \<Rightarrow> bool" where
  "truthy None = False"
| "truthy (Some JNull) = False"
| "truthy (Some (JBool b)) = b"
| "truthy (Some (JNum n)) = (n \<noteq> 0)"
| "truthy (Some (JStr s)) = (s \<noteq> [])"
| "truthy (Some (JArr xs)) = True"
| "truthy (Some (JObj kvs)) = True"

text \<open>Property read \<^verbatim>\<open>v.key\<close> on a value other than \<^verbatim>\<open>null\<close>: the member of an
  object, and \<^verbatim>\<open>undefined\<close> on a primitive or an array (none of the keys the
  service reads is a built-in property of those).\<close>

fun js_prop :: "json \<Rightarrow> string \<Rightarrow> jsval" where
  "js_prop (JObj kvs) k = map_of kvs k"
| "js_prop v k = None"

text \<open>Property read on any JSON value: a \<^verbatim>\<open>TypeError\<close> on \<^verbatim>\<open>null\<close>.\<close>

definition get_prop :: "json \<Rightarrow> string \<Rightarrow> error + jsval" where
  "get_prop v k =
     (if v = JNull then Inl (TypeError (''Cannot read properties of null, reading '' @ k))
      else Inr (js_prop v k))"

text \<open>The nullish coalescing operator \<^verbatim>\<open>a ?? b\<close>: \<^verbatim>\<open>b\<close> when \<^verbatim>\<open>a\<close> is
  \<^verbatim>\<open>undefined\<close> or \<^verbatim>\<open>null\<close>, otherwise \<^verbatim>\<open>a\<close>.\<close>

fun nullish :: "jsval \<Rightarrow> jsval \<Rightarrow> jsval" where
  "nullish None b = b"
| "nullish (Some JNull) b = b"
| "nullish (Some v) b = Some v"

subsection \<open>Decimal numerals\<close>

definition digit_char :: "nat \<Rightarrow> char" where
  "digit_char d = char_of (48 + d)"

fun show_nat :: "nat \<Rightarrow> string" where
  "show_nat n = (if n < 10 then [digit_char n] else show_nat (n div 10) @ [digit_char (n mod 10)])"

definition show_int :: "int \<Rightarrow> string" where
  "show_int i = (if i < 0 then CHR ''-'' # show_nat (nat (- i)) else show_nat (nat i))"

fun join_comma :: "string list \<Rightarrow> string" where
  "join_comma [] = []"
| "join_comma [s] = s"
| "join_comma (s # t # ss) = s @ '','' @ join_comma (t # ss)"

text \<open>\<^verbatim>\<open>String(v)\<close> on a defined value. An array joins its elements with commas,
  \<^verbatim>\<open>null\<close> elements giving the empty string.\<close>

fun js_String :: "json \<Rightarrow> string" where
  "js_String JNull = ''null''"
| "js_String (JBool b) = (if b then ''true'' else ''false'')"
| "js_String (JNum n) = show_int n"
| "js_String (JStr s) = s"
| "js_String (JArr xs) = join_comma (map (\<lambda>x. if x = JNull then [] else js_String x) xs)"
| "js_String (JObj kvs) = ''[object Object]''"

text \<open>Numbers as \<^verbatim>\<open>Number(v)\<close> returns them: an integer or \<^verbatim>\<open>NaN\<close>.\<close>

datatype jsnum = Num int | NaN

definition is_space :: "char \<Rightarrow> bool" where
  "is_space c = (c \<in> set [CHR '' '', CHR 0x09, CHR 0x0A, CHR 0x0B, CHR 0x0C, CHR 0x0D])"

definition is_digit :: "char \<Rightarrow> bool" where
  "is_digit c = (CHR ''0'' \<le> c \<and> c \<le> CHR ''9'')"

definition trim :: "string \<Rightarrow> string" where
  "trim s = rev (dropWhile is_space (rev (dropWhile is_space s)))"

definition digits_value :: "string \<Rightarrow> nat" where
  "digits_value ds = fold (\<lambda>c acc. 10 * acc + (of_char c - 48)) ds 0"

text \<open>\<^verbatim>\<open>StringToNumber\<close>, for the decimal integer literals: surrounding white space
  is ignored, the empty string is \<^verbatim>\<open>0\<close>, an optional sign precedes the digits. A
  literal in another notation (fraction, exponent, radix prefix, \<^verbatim>\<open>Infinity\<close>) is
  not told apart from a string that is no number.\<close>

definition string_to_number :: "string \<Rightarrow> jsnum" where
  "string_to_number s =
     (let t = trim s in
      if t = [] then Num 0
      else
        let (neg, ds) = (if hd t = CHR ''-'' then (True, tl t)
                         else if hd t = CHR ''+'' then (False, tl t) else (False, t))
        in if ds \<noteq> [] \<and> list_all is_digit ds
           then Num (if neg then - int (digits_value ds) else int (digits_value ds))
           else NaN)"

text \<open>\<^verbatim>\<open>Number(v)\<close> on a defined value; an array or object is converted through its
  string.\<close>

fun js_Number :: "json \<Rightarrow> jsnum" where
  "js_Number JNull = Num 0"
| "js_Number (JBool b) = Num (if b then 1 else 0)"
| "js_Number (JNum n) = Num n"
| "js_Number (JStr s) = string_to_number s"
| "js_Number (JArr xs) = string_to_number (js_String (JArr xs))"
| "js_Number (JObj kvs) = NaN"

section \<open>The durable store\<close>

text \<open>
  The tables the service queries, as lists of rows in the store's enumeration order.
  Identifiers are \<^verbatim>\<open>BIGINT\<close> columns; the driver hands them to the service as
  decimal strings, and the model keeps them in that form, so that the equality of
  SQL and \<^verbatim>\<open>===\<close> of the service coincide on them. An id that a caller passes is
  taken to be in the same form: a parameter such as \<^verbatim>\<open>031\<close>, which the store reads
  as the number 31 and the service compares as a string, is outside the model.

  \<open>ev_order\<close> is \<^verbatim>\<open>(metadata->'http://ethz.ch/video/metadata'->>'order')::int\<close>, \<open>None\<close>
  when the path is \<^verbatim>\<open>NULL\<close>; \<open>ev_created\<close> is the \<^verbatim>\<open>created\<close> timestamp.
\<close>

record event =
  ev_id :: string
  ev_series :: "string option"
  ev_title :: string
  ev_state :: string
  ev_order :: "int option"
  ev_created :: int

record series =
  sr_id :: string
  sr_title :: string

record quiz_row =
  qz_event_id :: string
  qz_language :: string
  qz_quiz_data :: json

text \<open>\<^verbatim>\<open>interface SeriesEvent\<close>\<close>

record SeriesEvent =
  se_id :: string
  se_title :: string
  se_position :: nat

text \<open>\<^verbatim>\<open>interface CumulativeQuizQuestion\<close>, with its \<^verbatim>\<open>videoContext\<close> inlined. The
  fields copied from the stored question keep whatever value it had there.\<close>

record CumulativeQuizQuestion =
  question :: jsval
  questionType :: jsval
  options :: jsval
  correctAnswer :: string
  explanation :: jsval
  difficulty :: jsval
  vc_eventId :: string
  vc_videoTitle :: string
  vc_videoNumber :: nat
  vc_timestamp :: "jsnum option"

text \<open>\<^verbatim>\<open>interface CumulativeQuiz\<close>; a row of \<^verbatim>\<open>ai_cumulative_quizzes\<close> holds the same
  columns.\<close>

record CumulativeQuiz =
  eventId :: string
  seriesId :: string
  language :: string
  model :: string
  questions :: "CumulativeQuizQuestion list"
  includedEventIds :: "string list"
  videoCount :: nat
  processingTimeMs :: int

text \<open>The statements the service sends through \<^verbatim>\<open>pool.query\<close>, with their
  parameters.\<close>

datatype query =
    SelectSeriesEvent string
  | SelectSeriesEventsUpTo string string
  | SelectQuizData string string
  | UpsertCumulativeQuiz string string
  | SelectCumulativeQuiz string string
  | SelectEvent string
  | SelectQuizId string string
  | SelectPositions string
  | SelectPreviousQuizzes "string list" string

text \<open>
  A store is a snapshot of the tables together with \<open>fault\<close>, which says which
  statements the store rejects (connection loss, a failed cast) and with what message.
\<close>

record store =
  all_events :: "event list"
  all_series :: "series list"
  ai_quizzes :: "quiz_row list"
  ai_cumulative_quizzes :: "CumulativeQuiz list"
  fault :: "query \<Rightarrow> string option"

text \<open>\<^verbatim>\<open>pool.query\<close>: rejects when the store faults on the statement, otherwise
  resolves with the rows.\<close>

definition pool_query :: "store \<Rightarrow> query \<Rightarrow> 'a \<Rightarrow> error + 'a" where
  "pool_query db q rows = (case fault db q of Some m \<Rightarrow> Inl (QueryError m) | None \<Rightarrow> Inr rows)"

section \<open>Series Position Resolver\<close>

text \<open>The \<^verbatim>\<open>ORDER BY\<close> key of the window: the order hint, \<^verbatim>\<open>999999\<close> when there is
  none, then \<^verbatim>\<open>created\<close>.\<close>

definition hint_key :: "event \<Rightarrow> int" where
  "hint_key e = (case ev_order e of Some h \<Rightarrow> h | None \<Rightarrow> 999999)"

definition order_key :: "event \<Rightarrow> int \<times> int" where
  "order_key e = (hint_key e, ev_created e)"

text \<open>The rows of \<^verbatim>\<open>all_events\<close> with \<^verbatim>\<open>series = $1 AND state = 'ready'\<close>, in the order
  of the window. Rows with equal keys keep the store's enumeration order.\<close>

definition series_ready :: "store \<Rightarrow> string \<Rightarrow> event list" where
  "series_ready db sid =
     sort_key order_key
       (filter (\<lambda>e. ev_series e = Some sid \<and> ev_state e = ''ready'') (all_events db))"

text \<open>The common table expression \<^verbatim>\<open>ordered_events\<close>: \<^verbatim>\<open>id\<close>, \<^verbatim>\<open>title\<close> and
  \<^verbatim>\<open>ROW_NUMBER()\<close>, which counts from 1.\<close>

definition ordered_events :: "store \<Rightarrow> string \<Rightarrow> SeriesEvent list" where
  "ordered_events db sid =
     map (\<lambda>(i, e). \<lparr>se_id = ev_id e, se_title = ev_title e, se_position = i\<rparr>)
       (enumerate 1 (series_ready db sid))"

text \<open>\<^verbatim>\<open>getSeriesEventsUpTo\<close>: \<^verbatim>\<open>target_position\<close> selects the positions of the rows
  with \<^verbatim>\<open>id = $2\<close>; the result joins \<^verbatim>\<open>ordered_events\<close> with it on
  \<^verbatim>\<open>e.position <= t.position\<close> and is ordered by position.\<close>

definition target_position :: "store \<Rightarrow> string \<Rightarrow> string \<Rightarrow> nat list" where
  "target_position db sid upTo =
     map se_position (filter (\<lambda>e. se_id e = upTo) (ordered_events db sid))"

definition getSeriesEventsUpTo :: "store \<Rightarrow> string \<Rightarrow> string \<Rightarrow> error + SeriesEvent list" where
  "getSeriesEventsUpTo db sid upTo =
     pool_query db (SelectSeriesEventsUpTo sid upTo)
       (sort_key se_position
          (concat (map (\<lambda>t. filter (\<lambda>e. se_position e \<le> t) (ordered_events db sid))
                       (target_position db sid upTo))))"

section \<open>Per-video quizzes\<close>

text \<open>What \<^verbatim>\<open>getOrGenerateIndividualQuiz\<close> returns: \<^verbatim>\<open>{ eventId, questions }\<close>.\<close>

record IndividualQuiz =
  iq_eventId :: string
  iq_questions :: jsval




section \<open>Quiz Combiner\<close>

text \<open>The object that \<^verbatim>\<open>combineQuizzes\<close> pushes for the question \<^verbatim>\<open>q\<close> of the video
  \<^verbatim>\<open>event\<close>, given the resolved \<^verbatim>\<open>correctAnswer\<close>. The position comes from the
  resolver as a numeral and \<^verbatim>\<open>Number\<close> reads it back.\<close>

definition combined_question :: "SeriesEvent \<Rightarrow> json \<Rightarrow> json \<Rightarrow> CumulativeQuizQuestion" where
  "combined_question event q answer =
     \<lparr>question = js_prop q ''question'',
      questionType = nullish (js_prop q ''questionType'') (js_prop q ''type''),
      options = js_prop q ''options'',
      correctAnswer = js_String answer,
      explanation = js_prop q ''explanation'',
      difficulty = js_prop q ''difficulty'',
      vc_eventId = se_id event,
      vc_videoTitle = se_title event,
      vc_videoNumber = se_position event,
      vc_timestamp = (if truthy (js_prop q ''timestamp'')
                      then map_option js_Number (js_prop q ''timestamp'')
                      else None)\<rparr>"

text \<open>The body of the inner \<^verbatim>\<open>forEach\<close> of \<^verbatim>\<open>combineQuizzes\<close> for one question
  \<^verbatim>\<open>q\<close>, with \<^verbatim>\<open>event = events[index]\<close> (\<open>None\<close> when the index is out of range):
  \<open>Inr None\<close> when the question is skipped, \<open>Inr (Some c)\<close> when \<open>c\<close> is pushed.\<close>

definition combine_question :: "SeriesEvent option \<Rightarrow> json \<Rightarrow> error + CumulativeQuizQuestion option" where
  "combine_question event q =
     (case get_prop q ''correctAnswer'' of
        Inl e \<Rightarrow> Inl e
      | Inr camel \<Rightarrow>
          (let correctAnswer = nullish camel (js_prop q ''correct_answer'') in
           case correctAnswer of
             None \<Rightarrow> Inr None
           | Some answer \<Rightarrow>
               (case event of
                  None \<Rightarrow> Inl (TypeError ''Cannot read properties of undefined, reading id'')
                | Some ev \<Rightarrow> Inr (Some (combined_question ev q answer)))))"

text \<open>The inner \<^verbatim>\<open>forEach\<close>: the questions pushed for one quiz, in order; an exception
  ends the whole combination.\<close>

fun combine_questions :: "SeriesEvent option \<Rightarrow> json list \<Rightarrow> error + CumulativeQuizQuestion list" where
  "combine_questions event [] = Inr []"
| "combine_questions event (q # qs) =
     (case combine_question event q of
        Inl e \<Rightarrow> Inl e
      | Inr r \<Rightarrow> (case combine_questions event qs of
                    Inl e \<Rightarrow> Inl e
                  | Inr rest \<Rightarrow> Inr (case r of None \<Rightarrow> rest | Some c \<Rightarrow> c # rest)))"

text \<open>The outer \<^verbatim>\<open>forEach((quiz, index) => ...)\<close> from \<open>index\<close> on. A quiz whose
  \<^verbatim>\<open>questions\<close> is not an array contributes nothing.\<close>

fun combine_from :: "nat \<Rightarrow> IndividualQuiz list \<Rightarrow> SeriesEvent list \<Rightarrow> error + CumulativeQuizQuestion list" where
  "combine_from index [] events = Inr []"
| "combine_from index (quiz # quizzes) events =
     (let event = (if index < length events then Some (events ! index) else None) in
      case (case iq_questions quiz of
              Some (JArr qs) \<Rightarrow> combine_questions event qs
            | _ \<Rightarrow> Inr []) of
        Inl e \<Rightarrow> Inl e
      | Inr pushed \<Rightarrow> (case combine_from (Suc index) quizzes events of
                         Inl e \<Rightarrow> Inl e
                       | Inr rest \<Rightarrow> Inr (pushed @ rest)))"

definition combineQuizzes :: "IndividualQuiz list \<Rightarrow> SeriesEvent list \<Rightarrow> error + CumulativeQuizQuestion list" where
  "combineQuizzes quizzes events = combine_from 0 quizzes events"

section \<open>Cache Consistency Guard\<close>

text \<open>\<^verbatim>\<open>Array.prototype.sort()\<close> without a comparator orders strings by their code
  units, which is the lexicographic order of \<open>string\<close>.\<close>

definition js_sort :: "string list \<Rightarrow> string list" where
  "js_sort xs = sort xs"

text \<open>\<^verbatim>\<open>isCacheValid\<close>. The two sorted arrays are compared through
  \<^verbatim>\<open>JSON.stringify\<close>, which maps different arrays of strings to different texts;
  the model compares the arrays. A rejected query is caught and gives \<^verbatim>\<open>false\<close>.\<close>

definition isCacheValid :: "store \<Rightarrow> CumulativeQuiz \<Rightarrow> bool" where
  "isCacheValid db quiz =
     (case getSeriesEventsUpTo db (seriesId quiz) (eventId quiz) of
        Inl e \<Rightarrow> False
      | Inr currentEvents \<Rightarrow>
          (let currentEventIds = js_sort (map se_id currentEvents);
               cachedEventIds = js_sort (includedEventIds quiz)
           in currentEventIds = cachedEventIds))"

section \<open>Aggregation Orchestrator\<close>













section \<open>Eligibility Evaluator\<close>

record details =
  d_seriesId :: string
  d_seriesTitle :: "string option"
  d_position :: "nat option"
  d_totalInSeries :: "nat option"
  d_previousVideosWithQuizzes :: "nat option"
  d_hasQuiz :: bool

record eligibility =
  eligible :: bool
  reason :: string
  details :: "details option"

text \<open>\<^verbatim>\<open>Array.prototype.findIndex\<close>, \<open>None\<close> for \<^verbatim>\<open>-1\<close>.\<close>

fun findIndex :: "('a \<Rightarrow> bool) \<Rightarrow> 'a list \<Rightarrow> nat option" where
  "findIndex P [] = None"
| "findIndex P (x # xs) = (if P x then Some 0 else map_option Suc (findIndex P xs))"

text \<open>The first statement of \<^verbatim>\<open>checkEligibility\<close>: the ready rows with the id, each
  joined (\<^verbatim>\<open>LEFT JOIN\<close>) with the title of its series, \<open>None\<close> when no series row
  matches.\<close>

definition event_with_series :: "store \<Rightarrow> string \<Rightarrow> (event \<times> string option) list" where
  "event_with_series db eid =
     concat (map (\<lambda>e. case filter (\<lambda>s. Some (sr_id s) = ev_series e) (all_series db) of
                         [] \<Rightarrow> [(e, None)]
                       | ss \<Rightarrow> map (\<lambda>s. (e, Some (sr_title s))) ss)
                 (filter (\<lambda>e. ev_id e = eid \<and> ev_state e = ''ready'') (all_events db)))"

text \<open>\<^verbatim>\<open>SELECT DISTINCT event_id FROM ai_quizzes WHERE event_id = ANY($1) AND language = $2\<close>\<close>

definition previous_quizzes :: "store \<Rightarrow> string list \<Rightarrow> string \<Rightarrow> string list" where
  "previous_quizzes db previousIds lang =
     remdups (map qz_event_id
       (filter (\<lambda>r. qz_event_id r \<in> set previousIds \<and> qz_language r = lang) (ai_quizzes db)))"

definition reason_not_found :: string where
  "reason_not_found = ''Event not found or not ready''"

definition reason_no_series :: string where
  "reason_no_series =
     ''This video is not part of a series. Cumulative quizzes require a video series.''"

definition reason_no_quiz :: string where
  "reason_no_quiz =
     ''Generate a regular quiz for this video first before creating a cumulative quiz.''"

definition reason_no_position :: string where
  "reason_no_position = ''Video position could not be determined in the series''"

definition reason_first :: string where
  "reason_first =
     ''This is the first video in the series. Cumulative quizzes require at least one previous video with a quiz.''"

definition reason_no_previous :: string where
  "reason_no_previous =
     ''No previous videos in this series have quizzes yet. Generate quizzes for earlier videos first.''"

definition reason_eligible :: "nat \<Rightarrow> nat \<Rightarrow> nat \<Rightarrow> string" where
  "reason_eligible currentPosition totalInSeries previousVideosWithQuizzes =
     ''Cumulative quiz can be generated. This video is #'' @ show_nat currentPosition
     @ '' of '' @ show_nat totalInSeries @ '' in the series, with ''
     @ show_nat previousVideosWithQuizzes @ '' previous video(s) having quizzes.''"

text \<open>The \<^verbatim>\<open>try\<close> block of \<^verbatim>\<open>checkEligibility\<close>.\<close>

definition eligibility_steps :: "store \<Rightarrow> string \<Rightarrow> string \<Rightarrow> error + eligibility" where
  "eligibility_steps db eid lang =
     (case pool_query db (SelectEvent eid) (event_with_series db eid) of
        Inl e \<Rightarrow> Inl e
      | Inr [] \<Rightarrow> Inr \<lparr>eligible = False, reason = reason_not_found, details = None\<rparr>
      | Inr ((event, series_title) # _) \<Rightarrow>
          (case ev_series event of
             None \<Rightarrow> Inr \<lparr>eligible = False, reason = reason_no_series, details = None\<rparr>
           | Some sid \<Rightarrow>
               if sid = [] then Inr \<lparr>eligible = False, reason = reason_no_series, details = None\<rparr>
               else
               (case pool_query db (SelectQuizId eid lang)
                       (filter (\<lambda>r. qz_event_id r = eid \<and> qz_language r = lang) (ai_quizzes db)) of
                  Inl e \<Rightarrow> Inl e
                | Inr quizRows \<Rightarrow>
                    if \<not> length quizRows > 0 then
                      Inr \<lparr>eligible = False, reason = reason_no_quiz,
                           details = Some \<lparr>d_seriesId = sid, d_seriesTitle = series_title,
                             d_position = None, d_totalInSeries = None,
                             d_previousVideosWithQuizzes = None, d_hasQuiz = False\<rparr>\<rparr>
                    else
                    (case pool_query db (SelectPositions sid) (ordered_events db sid) of
                       Inl e \<Rightarrow> Inl e
                     | Inr allSeriesVideos \<Rightarrow>
                         (case findIndex (\<lambda>v. se_id v = eid) allSeriesVideos of
                            None \<Rightarrow>
                              Inr \<lparr>eligible = False, reason = reason_no_position,
                                   details = Some \<lparr>d_seriesId = sid, d_seriesTitle = series_title,
                                     d_position = None, d_totalInSeries = None,
                                     d_previousVideosWithQuizzes = None, d_hasQuiz = True\<rparr>\<rparr>
                          | Some currentVideoIndex \<Rightarrow>
                              (let currentPosition = currentVideoIndex + 1;
                                   totalInSeries = length allSeriesVideos;
                                   videosBeforeThis = take currentVideoIndex allSeriesVideos
                               in if length videosBeforeThis = 0 then
                                    Inr \<lparr>eligible = False, reason = reason_first,
                                         details = Some \<lparr>d_seriesId = sid, d_seriesTitle = series_title,
                                           d_position = Some currentPosition,
                                           d_totalInSeries = Some totalInSeries,
                                           d_previousVideosWithQuizzes = Some 0, d_hasQuiz = True\<rparr>\<rparr>
                                  else
                                  (let previousIds = map se_id videosBeforeThis in
                                   case pool_query db (SelectPreviousQuizzes previousIds lang)
                                          (previous_quizzes db previousIds lang) of
                                     Inl e \<Rightarrow> Inl e
                                   | Inr previousRows \<Rightarrow>
                                       (let previousVideosWithQuizzes = length previousRows in
                                        if previousVideosWithQuizzes = 0 then
                                          Inr \<lparr>eligible = False, reason = reason_no_previous,
                                               details = Some \<lparr>d_seriesId = sid,
                                                 d_seriesTitle = series_title,
                                                 d_position = Some currentPosition,
                                                 d_totalInSeries = Some totalInSeries,
                                                 d_previousVideosWithQuizzes = Some 0,
                                                 d_hasQuiz = True\<rparr>\<rparr>
                                        else
                                          Inr \<lparr>eligible = True,
                                               reason = reason_eligible currentPosition totalInSeries
                                                          previousVideosWithQuizzes,
                                               details = Some \<lparr>d_seriesId = sid,
                                                 d_seriesTitle = series_title,
                                                 d_position = Some currentPosition,
                                                 d_totalInSeries = Some totalInSeries,
                                                 d_previousVideosWithQuizzes =
                                                   Some previousVideosWithQuizzes,
                                                 d_hasQuiz = True\<rparr>\<rparr>))))))))"

text \<open>\<^verbatim>\<open>checkEligibility\<close>: the \<^verbatim>\<open>catch\<close> clause turns every exception of the block
  into a result.\<close>

definition checkEligibility :: "store \<Rightarrow> string \<Rightarrow> string \<Rightarrow> error + eligibility" where
  "checkEligibility db eid lang =
     (case eligibility_steps db eid lang of
        Inl e \<Rightarrow> Inr \<lparr>eligible = False,
                      reason = ''Error checking eligibility: '' @ message e,
                      details = None\<rparr>
      | Inr r \<Rightarrow> Inr r)"

section \<open>Notions of the statements\<close>

subsection \<open>Of the combiner\<close>

text \<open>The answer of a stored question: \<^verbatim>\<open>q.correctAnswer ?? q.correct_answer\<close>.\<close>

definition resolved_answer :: "json \<Rightarrow> jsval" where
  "resolved_answer q = nullish (js_prop q ''correctAnswer'') (js_prop q ''correct_answer'')"

text \<open>The questions of a per-video quiz: the elements of \<^verbatim>\<open>questions\<close> when it is an
  array, none otherwise.\<close>

definition quiz_questions :: "IndividualQuiz \<Rightarrow> json list" where
  "quiz_questions quiz = (case iq_questions quiz of Some (JArr qs) \<Rightarrow> qs | _ \<Rightarrow> [])"

text \<open>The combined questions a quiz contributes for its video: one for each question
  with an answer, in the order of the quiz.\<close>

definition contribution :: "IndividualQuiz \<Rightarrow> SeriesEvent \<Rightarrow> CumulativeQuizQuestion list" where
  "contribution quiz ev =
     List.map_filter (\<lambda>q. map_option (combined_question ev q) (resolved_answer q))
       (quiz_questions quiz)"

subsection \<open>Of the evaluator\<close>

text \<open>A quiz is stored for the video and the language.\<close>

definition has_quiz :: "store \<Rightarrow> string \<Rightarrow> string \<Rightarrow> bool" where
  "has_quiz db eid lang = (\<exists>r \<in> set (ai_quizzes db). qz_event_id r = eid \<and> qz_language r = lang)"

text \<open>The reasons of the results that are not eligible.\<close>

definition gate_reasons :: "string list" where
  "gate_reasons = [reason_not_found, reason_no_series, reason_no_quiz, reason_no_position,
                   reason_first, reason_no_previous]"

subsection \<open>Of the orchestrator\<close>





section \<open>Examples\<close>

subsection \<open>Stores\<close>

text \<open>A ready video of a series, and a store without faults that holds the given videos
  and per-video quizzes.\<close>

definition ready_event :: "string \<Rightarrow> string \<Rightarrow> int option \<Rightarrow> int \<Rightarrow> event" where
  "ready_event i sid hint created =
     \<lparr>ev_id = i, ev_series = Some sid, ev_title = ''Video '' @ i, ev_state = ''ready'',
      ev_order = hint, ev_created = created\<rparr>"

definition plain_store :: "event list \<Rightarrow> quiz_row list \<Rightarrow> store" where
  "plain_store evs qs =
     \<lparr>all_events = evs, all_series = [], ai_quizzes = qs, ai_cumulative_quizzes = [],
      fault = (\<lambda>q. None)\<rparr>"

text \<open>A series of three videos with the order hints 2, 1 and none; the video without a
  hint is the oldest.\<close>

definition lecture_store :: store where
  "lecture_store =
     plain_store [ready_event ''20'' ''1'' (Some 2) 100,
                  ready_event ''21'' ''1'' (Some 1) 200,
                  ready_event ''22'' ''1'' None 50] []"

text \<open>A series of two videos, the first with a quiz, and a cumulative quiz stored for the
  second.\<close>

definition course_store :: store where
  "course_store =
     plain_store [ready_event ''1'' ''7'' (Some 1) 10, ready_event ''2'' ''7'' (Some 3) 20]
       [\<lparr>qz_event_id = ''1'', qz_language = ''en'',
         qz_quiz_data = JObj [(''questions'',
           JArr [JObj [(''question'', JStr ''What is a set?''), (''correct_answer'', JNum 0)]])]\<rparr>]"

definition course_quiz :: CumulativeQuiz where
  "course_quiz =
     \<lparr>eventId = ''2'', seriesId = ''7'', language = ''en'', model = ''gpt-4'', questions = [],
      includedEventIds = [''1'', ''2''], videoCount = 2, processingTimeMs = 5\<rparr>"

text \<open>A store that rejects every statement.\<close>

definition unreachable :: "store \<Rightarrow> store" where
  "unreachable db = db\<lparr>fault := (\<lambda>q. Some ''Connection terminated unexpectedly'')\<rparr>"

subsection \<open>Videos and questions\<close>

text \<open>Two resolved videos.\<close>

definition first_video :: SeriesEvent where
  "first_video = \<lparr>se_id = ''1'', se_title = ''Video 1'', se_position = 1\<rparr>"

definition second_video :: SeriesEvent where
  "second_video = \<lparr>se_id = ''2'', se_title = ''Video 2'', se_position = 2\<rparr>"

text \<open>Stored questions: one with \<^verbatim>\<open>correctAnswer: null\<close>, one with
  \<^verbatim>\<open>correct_answer: null\<close>, one at offset 0 with the answer index 0, one at 120 seconds
  with the answer \<^verbatim>\<open>true\<close>, and one without an answer.\<close>

definition question_null_camel :: json where
  "question_null_camel = JObj [(''question'', JStr ''Q1''), (''correctAnswer'', JNull)]"

definition question_null_snake :: json where
  "question_null_snake = JObj [(''question'', JStr ''Q2''), (''correct_answer'', JNull)]"

definition question_at_start :: json where
  "question_at_start =
     JObj [(''question'', JStr ''Q3''), (''correct_answer'', JNum 0), (''timestamp'', JNum 0)]"

definition question_later :: json where
  "question_later =
     JObj [(''question'', JStr ''Q4''), (''correct_answer'', JBool True), (''timestamp'', JNum 120)]"

definition question_unanswered :: json where
  "question_unanswered = JObj [(''question'', JStr ''Q5''), (''explanation'', JStr ''none'')]"

subsection \<open>A series with quizzes\<close>

text \<open>A series of the videos \<^verbatim>\<open>31\<close>, \<^verbatim>\<open>32\<close> and \<^verbatim>\<open>33\<close>, of which the last two have a
  quiz, and the video \<^verbatim>\<open>40\<close>, which is in no series.\<close>

definition stored_quiz :: "string \<Rightarrow> json list \<Rightarrow> quiz_row" where
  "stored_quiz eid qs =
     \<lparr>qz_event_id = eid, qz_language = ''en'', qz_quiz_data = JObj [(''questions'', JArr qs)]\<rparr>"

definition semester_store :: store where
  "semester_store =
     \<lparr>all_events =
        [ready_event ''31'' ''5'' (Some 1) 10, ready_event ''32'' ''5'' (Some 2) 20,
         ready_event ''33'' ''5'' (Some 3) 30,
         \<lparr>ev_id = ''40'', ev_series = None, ev_title = ''Video 40'', ev_state = ''ready'',
          ev_order = None, ev_created = 40\<rparr>],
      all_series = [\<lparr>sr_id = ''5'', sr_title = ''Algebra''\<rparr>],
      ai_quizzes =
        [stored_quiz ''32'' [question_at_start, question_later],
         stored_quiz ''33'' [question_later, question_unanswered, question_at_start, question_later]],
      ai_cumulative_quizzes = [],
      fault = (\<lambda>q. None)\<rparr>"

text \<open>The store after a quiz is stored for the first video of the example series.\<close>

definition with_first_quiz :: "store \<Rightarrow> store" where
  "with_first_quiz db = db\<lparr>ai_quizzes := stored_quiz ''31'' [question_later] # ai_quizzes db\<rparr>"

subsection \<open>Services\<close>





section \<open>Properties of the Series Position Resolver\<close>

lemma ordered_events_nth:
  "ordered_events db sid = map (\<lambda>i. \<lparr>se_id = ev_id (series_ready db sid ! i), se_title = ev_title (series_ready db sid ! i), se_position = Suc i\<rparr>) [0..<length (series_ready db sid)]"
  unfolding ordered_events_def
  by (rule nth_equalityI) (auto simp: nth_enumerate_eq)

lemma length_ordered_events [simp]: "length (ordered_events db sid) = length (series_ready db sid)"
  by (simp add: ordered_events_def)

lemma ordered_events_ids: "map se_id (ordered_events db sid) = map ev_id (series_ready db sid)"
  by (rule nth_equalityI) (simp_all add: ordered_events_nth)

lemma ordered_events_positions:
  "map se_position (ordered_events db sid) = [1..<Suc (length (series_ready db sid))]"
  by (rule nth_equalityI) (simp_all add: ordered_events_nth del: upt_Suc)

lemma filter_position_enumerate:
  "filter (\<lambda>p. fst p \<le> t) (enumerate k xs) = take (Suc t - k) (enumerate k xs)"
proof (induction xs arbitrary: k)
  case Nil
  then show ?case by simp
next
  case (Cons x xs)
  show ?case
  proof (cases "k \<le> t")
    case True
    then have "Suc t - k = Suc (Suc t - Suc k)" by simp
    with True Cons show ?thesis by simp
  next
    case False
    then have "filter (\<lambda>p. fst p \<le> t) (enumerate (Suc k) xs) = []"
      using Cons [of "Suc k"] by simp
    with False show ?thesis by simp
  qed
qed

lemma filter_position_ordered:
  "filter (\<lambda>e. se_position e \<le> t) (ordered_events db sid) = take t (ordered_events db sid)"
proof -
  let ?g = "\<lambda>(i, e). \<lparr>se_id = ev_id e, se_title = ev_title e, se_position = i\<rparr>"
  have "filter (\<lambda>e. se_position e \<le> t) (map ?g (enumerate 1 (series_ready db sid)))
        = map ?g (filter (\<lambda>p. fst p \<le> t) (enumerate 1 (series_ready db sid)))"
    by (simp add: filter_map comp_def case_prod_beta)
  also have "\<dots> = map ?g (take t (enumerate 1 (series_ready db sid)))"
    by (simp only: filter_position_enumerate diff_Suc_1)
  finally show ?thesis by (simp add: ordered_events_def take_map)
qed

lemma sorted_positions_take: "sorted (map se_position (take t (ordered_events db sid)))"
proof -
  have "sorted (map se_position (ordered_events db sid))"
    by (simp add: ordered_events_positions del: upt_Suc)
  then have "sorted (take t (map se_position (ordered_events db sid)))"
    by (rule sorted_wrt_take)
  then show ?thesis by (simp only: take_map)
qed

lemma filter_key_distinct:
  "distinct (map f xs) \<Longrightarrow> filter (\<lambda>x. f x = a) xs = [] \<or> (\<exists>x. filter (\<lambda>x. f x = a) xs = [x])"
proof (induction xs)
  case Nil
  then show ?case by simp
next
  case (Cons x xs)
  show ?case
  proof (cases "f x = a")
    case True
    have "\<forall>y \<in> set xs. f y \<noteq> a"
    proof
      fix y assume "y \<in> set xs"
      then have "f y \<in> f ` set xs" by (rule imageI)
      moreover from Cons.prems have "f x \<notin> f ` set xs" by simp
      ultimately show "f y \<noteq> a" using True by metis
    qed
    then have "filter (\<lambda>x. f x = a) xs = []"
      by (simp add: filter_empty_conv)
    with True show ?thesis by simp
  next
    case False
    with Cons show ?thesis by simp
  qed
qed

lemma distinct_series_ids:
  assumes "distinct (map ev_id (all_events db))"
  shows "distinct (map se_id (ordered_events db sid))"
proof -
  have "distinct (map ev_id (filter (\<lambda>e. ev_series e = Some sid \<and> ev_state e = ''ready'') (all_events db)))"
    using assms by (rule distinct_map_filter)
  then have "distinct (map ev_id (series_ready db sid))"
    unfolding series_ready_def by (simp add: distinct_map)
  then show ?thesis by (simp add: ordered_events_ids)
qed

lemma getSeriesEventsUpTo_absent:
  assumes "fault db (SelectSeriesEventsUpTo sid a) = None"
    and "a \<notin> set (map se_id (ordered_events db sid))"
  shows "getSeriesEventsUpTo db sid a = Inr []"
proof -
  have "filter (\<lambda>e. se_id e = a) (ordered_events db sid) = []"
    using assms(2) by (auto simp: filter_empty_conv)
  then show ?thesis
    using assms(1) by (simp add: getSeriesEventsUpTo_def pool_query_def target_position_def)
qed

lemma getSeriesEventsUpTo_prefix:
  assumes nofault: "fault db (SelectSeriesEventsUpTo sid a) = None"
    and dist: "distinct (map ev_id (all_events db))"
    and present: "a \<in> set (map se_id (ordered_events db sid))"
  shows "\<exists>n. 0 < n \<and> n \<le> length (ordered_events db sid) \<and> se_id (ordered_events db sid ! (n - 1)) = a
           \<and> getSeriesEventsUpTo db sid a = Inr (take n (ordered_events db sid))"
proof -
  let ?os = "ordered_events db sid"
  from present obtain i where i: "i < length ?os" and ida: "se_id (?os ! i) = a"
    by (auto simp: in_set_conv_nth)
  have mem: "?os ! i \<in> set (filter (\<lambda>e. se_id e = a) ?os)"
    using i ida by simp
  have "filter (\<lambda>e. se_id e = a) ?os = [] \<or> (\<exists>x. filter (\<lambda>e. se_id e = a) ?os = [x])"
    using distinct_series_ids [OF dist] by (rule filter_key_distinct)
  then have one: "filter (\<lambda>e. se_id e = a) ?os = [?os ! i]"
  proof (elim disjE exE)
    assume eq: "filter (\<lambda>e. se_id e = a) ?os = []"
    from mem show ?thesis unfolding eq by simp
  next
    fix x assume eq: "filter (\<lambda>e. se_id e = a) ?os = [x]"
    from mem have "?os ! i = x" unfolding eq by simp
    with eq show ?thesis by simp
  qed
  have pos: "se_position (?os ! i) = Suc i"
    using i by (simp add: ordered_events_nth)
  have "getSeriesEventsUpTo db sid a = Inr (sort_key se_position (take (Suc i) ?os))"
    using nofault one pos
    by (simp add: getSeriesEventsUpTo_def pool_query_def target_position_def filter_position_ordered)
  also have "sort_key se_position (take (Suc i) ?os) = take (Suc i) ?os"
    by (rule sort_key_id_if_sorted) (rule sorted_positions_take)
  finally show ?thesis using i ida by (intro exI [of _ "Suc i"]) simp
qed

lemma series_ready_pairs:
  "sorted_wrt (\<lambda>e1 e2. hint_key e1 < hint_key e2 \<or> hint_key e1 = hint_key e2 \<and> ev_created e1 \<le> ev_created e2)
     (series_ready db sid)"
proof -
  have "sorted (map order_key (series_ready db sid))"
    by (simp add: series_ready_def)
  then have "sorted_wrt (\<lambda>e1 e2. order_key e1 \<le> order_key e2) (series_ready db sid)"
    by (simp add: sorted_wrt_map)
  then show ?thesis
    by (rule sorted_wrt_mono_rel [rotated]) (auto simp: order_key_def)
qed

lemma series_ready_hintless_last:
  "sorted_wrt (\<lambda>e1 e2. \<not> (ev_order e1 = None \<and> (\<exists>h. ev_order e2 = Some h \<and> h < 999999)))
     (series_ready db sid)"
  by (rule sorted_wrt_mono_rel [OF _ series_ready_pairs]) (auto simp: hint_key_def)

lemma series_ready_three:
  assumes "filter (\<lambda>e. ev_series e = Some sid \<and> ev_state e = ''ready'') (all_events db) = [a, b, c]"
    and "ev_order a = Some 2" and "ev_order b = Some 1" and "ev_order c = None"
  shows "series_ready db sid = [b, a, c]"
  using assms by (simp add: series_ready_def order_key_def hint_key_def)


lemma set_getSeriesEventsUpTo:
  "getSeriesEventsUpTo db sid a = Inr evs \<Longrightarrow>
   set evs = {e \<in> set (ordered_events db sid). \<exists>t \<in> set (target_position db sid a). se_position e \<le> t}"
  by (auto simp: getSeriesEventsUpTo_def pool_query_def split: option.splits)

lemma ready_ids:
  "set (map se_id (ordered_events db sid)) =
   ev_id ` {e \<in> set (all_events db). ev_series e = Some sid \<and> ev_state e = ''ready''}"
  by (auto simp: ordered_events_ids series_ready_def)

text \<open>
  Claim C1, as the code has it. The resolver numbers the ready videos of the series in
  the order of the key (hint, created), where a video without a hint takes the hint
  \<^verbatim>\<open>999999\<close>: the output is a prefix of that numbering, the numbering is a
  permutation of the ready videos of the series, a video never follows one with a
  greater hint key or with the same hint key and a later creation time, and a video
  without a hint never precedes one whose hint is below \<^verbatim>\<open>999999\<close>. Three videos with
  the hints 2, 1 and none resolve to: hint 1, hint 2, no hint.
\<close>

theorem resolver_order:
  assumes "fault db (SelectSeriesEventsUpTo sid anchor) = None"
    and "distinct (map ev_id (all_events db))"
  shows "(\<exists>n. getSeriesEventsUpTo db sid anchor = Inr (take n (ordered_events db sid)))
       \<and> map se_id (ordered_events db sid) = map ev_id (series_ready db sid)
       \<and> map se_position (ordered_events db sid) = [1..<Suc (length (series_ready db sid))]
       \<and> mset (series_ready db sid) =
           mset (filter (\<lambda>e. ev_series e = Some sid \<and> ev_state e = ''ready'') (all_events db))
       \<and> (\<forall>e. hint_key e = (case ev_order e of Some h \<Rightarrow> h | None \<Rightarrow> 999999))
       \<and> sorted_wrt (\<lambda>e1 e2. hint_key e1 < hint_key e2
                        \<or> hint_key e1 = hint_key e2 \<and> ev_created e1 \<le> ev_created e2)
           (series_ready db sid)
       \<and> sorted_wrt (\<lambda>e1 e2. \<not> (ev_order e1 = None \<and> (\<exists>h. ev_order e2 = Some h \<and> h < 999999)))
           (series_ready db sid)
       \<and> (\<forall>a b c. filter (\<lambda>e. ev_series e = Some sid \<and> ev_state e = ''ready'') (all_events db) = [a, b, c]
                  \<and> ev_order a = Some 2 \<and> ev_order b = Some 1 \<and> ev_order c = None
              \<longrightarrow> map se_id (ordered_events db sid) = [ev_id b, ev_id a, ev_id c])"
proof -
  have prefix: "\<exists>n. getSeriesEventsUpTo db sid anchor = Inr (take n (ordered_events db sid))"
  proof (cases "anchor \<in> set (map se_id (ordered_events db sid))")
    case True
    from getSeriesEventsUpTo_prefix [OF assms True] show ?thesis by blast
  next
    case False
    from getSeriesEventsUpTo_absent [OF assms(1) False] show ?thesis
      by (intro exI [of _ 0]) simp
  qed
  have perm: "mset (series_ready db sid) =
      mset (filter (\<lambda>e. ev_series e = Some sid \<and> ev_state e = ''ready'') (all_events db))"
    by (simp add: series_ready_def)
  have three: "\<forall>a b c. filter (\<lambda>e. ev_series e = Some sid \<and> ev_state e = ''ready'') (all_events db) = [a, b, c]
                  \<and> ev_order a = Some 2 \<and> ev_order b = Some 1 \<and> ev_order c = None
              \<longrightarrow> map se_id (ordered_events db sid) = [ev_id b, ev_id a, ev_id c]"
    by (auto simp: ordered_events_ids dest: series_ready_three)
  have key: "\<forall>e. hint_key e = (case ev_order e of Some h \<Rightarrow> h | None \<Rightarrow> 999999)"
    by (simp add: hint_key_def)
  from prefix ordered_events_ids ordered_events_positions perm key series_ready_pairs
    series_ready_hintless_last three
  show ?thesis by blast
qed

text \<open>The theorem of C1 at a series of three videos with the hints 2, 1 and none. The
  video without a hint is the oldest and still comes last.\<close>

theorem resolver_order_witness:
  "fault lecture_store (SelectSeriesEventsUpTo ''1'' ''22'') = None
   \<and> distinct (map ev_id (all_events lecture_store))
   \<and> map se_id (ordered_events lecture_store ''1'') = [''21'', ''20'', ''22'']
   \<and> getSeriesEventsUpTo lecture_store ''1'' ''20'' =
       Inr [\<lparr>se_id = ''21'', se_title = ''Video 21'', se_position = 1\<rparr>,
            \<lparr>se_id = ''20'', se_title = ''Video 20'', se_position = 2\<rparr>]"
proof -
  have nofault: "fault lecture_store (SelectSeriesEventsUpTo ''1'' ''22'') = None"
    by (simp add: lecture_store_def plain_store_def)
  have ids: "distinct (map ev_id (all_events lecture_store))"
    by (simp add: lecture_store_def plain_store_def ready_event_def)
  have rows: "filter (\<lambda>e. ev_series e = Some ''1'' \<and> ev_state e = ''ready'') (all_events lecture_store)
      = [ready_event ''20'' ''1'' (Some 2) 100, ready_event ''21'' ''1'' (Some 1) 200,
         ready_event ''22'' ''1'' None 50]"
    by (simp add: lecture_store_def plain_store_def ready_event_def)
  have "\<forall>a b c. filter (\<lambda>e. ev_series e = Some ''1'' \<and> ev_state e = ''ready'') (all_events lecture_store) = [a, b, c]
                  \<and> ev_order a = Some 2 \<and> ev_order b = Some 1 \<and> ev_order c = None
              \<longrightarrow> map se_id (ordered_events lecture_store ''1'') = [ev_id b, ev_id a, ev_id c]"
    using resolver_order [OF nofault ids] by blast
  then have "map se_id (ordered_events lecture_store ''1'') =
      [ev_id (ready_event ''21'' ''1'' (Some 1) 200), ev_id (ready_event ''20'' ''1'' (Some 2) 100),
       ev_id (ready_event ''22'' ''1'' None 50)]"
    by (rule allE [where x = "ready_event ''20'' ''1'' (Some 2) 100"])
       (simp add: rows ready_event_def)
  then have "map se_id (ordered_events lecture_store ''1'') = [''21'', ''20'', ''22'']"
    by (simp add: ready_event_def)
  moreover have "getSeriesEventsUpTo lecture_store ''1'' ''20'' =
       Inr [\<lparr>se_id = ''21'', se_title = ''Video 21'', se_position = 1\<rparr>,
            \<lparr>se_id = ''20'', se_title = ''Video 20'', se_position = 2\<rparr>]"
    by code_simp
  ultimately show ?thesis using nofault ids by simp
qed

text \<open>Claim C1 as stated fails: an absent hint is not beyond every hint. The video
  \<^verbatim>\<open>11\<close> has no hint and is resolved before the video \<^verbatim>\<open>10\<close>, whose hint is
  \<^verbatim>\<open>1000000\<close>.\<close>

theorem hintless_before_large_hint:
  "getSeriesEventsUpTo
     (plain_store [ready_event ''10'' ''1'' (Some 1000000) 0, ready_event ''11'' ''1'' None 1] [])
     ''1'' ''10''
   = Inr [\<lparr>se_id = ''11'', se_title = ''Video 11'', se_position = 1\<rparr>,
          \<lparr>se_id = ''10'', se_title = ''Video 10'', se_position = 2\<rparr>]"
  by code_simp




section \<open>Properties of the Cache Consistency Guard\<close>

lemma isCacheValid_iff:
  "isCacheValid db q \<longleftrightarrow>
     (\<exists>evs. getSeriesEventsUpTo db (seriesId q) (eventId q) = Inr evs
            \<and> js_sort (map se_id evs) = js_sort (includedEventIds q))"
  by (simp add: isCacheValid_def split: sum.splits)

lemma isCacheValid_error:
  "getSeriesEventsUpTo db (seriesId q) (eventId q) = Inl e \<Longrightarrow> \<not> isCacheValid db q"
  by (simp add: isCacheValid_def)

lemma isCacheValid_same_ids:
  assumes "isCacheValid db q" and "getSeriesEventsUpTo db (seriesId q) (eventId q) = Inr evs"
  shows "set (map se_id evs) = set (includedEventIds q)"
proof -
  from assms have "js_sort (map se_id evs) = js_sort (includedEventIds q)"
    by (simp add: isCacheValid_def)
  then have "set (js_sort (map se_id evs)) = set (js_sort (includedEventIds q))"
    by simp
  then show ?thesis by (simp add: js_sort_def)
qed

lemma member_ids_in_store:
  assumes "getSeriesEventsUpTo db sid a = Inr evs"
  shows "set (map se_id evs) \<subseteq> ev_id ` set (all_events db)"
proof -
  have "set evs \<subseteq> set (ordered_events db sid)"
    unfolding set_getSeriesEventsUpTo [OF assms] by auto
  then have "set (map se_id evs) \<subseteq> set (map se_id (ordered_events db sid))"
    by auto
  also have "\<dots> \<subseteq> ev_id ` set (all_events db)"
    unfolding ready_ids by auto
  finally show ?thesis .
qed

lemma earlier_video_is_member:
  assumes res: "getSeriesEventsUpTo db sid a = Inr evs"
    and b: "b \<in> set (all_events db)" "ev_id b = a" "ev_series b = Some sid" "ev_state b = ''ready''"
    and c: "c \<in> set (all_events db)" "ev_series c = Some sid" "ev_state c = ''ready''"
    and before: "order_key c < order_key b"
  shows "ev_id c \<in> set (map se_id evs)"
proof -
  let ?rows = "series_ready db sid" and ?os = "ordered_events db sid"
  have "b \<in> set ?rows" "c \<in> set ?rows"
    using b c by (simp_all add: series_ready_def)
  then obtain i j where i: "i < length ?rows" "?rows ! i = c" and j: "j < length ?rows" "?rows ! j = b"
    by (auto simp: in_set_conv_nth)
  have sorted: "sorted (map order_key ?rows)"
    by (simp add: series_ready_def)
  have "i < j"
  proof (rule ccontr)
    assume "\<not> i < j"
    then have "j \<le> i" by simp
    with sorted i(1) have "map order_key ?rows ! j \<le> map order_key ?rows ! i"
      by (intro sorted_nth_mono) simp_all
    with i j have "order_key b \<le> order_key c" by simp
    with before show False by simp
  qed
  have oi: "?os ! i = \<lparr>se_id = ev_id c, se_title = ev_title c, se_position = Suc i\<rparr>"
    and oj: "?os ! j = \<lparr>se_id = a, se_title = ev_title b, se_position = Suc j\<rparr>"
    using i j b(2) by (simp_all add: ordered_events_nth)
  have "?os ! j \<in> set ?os" using j(1) by simp
  then have t: "Suc j \<in> set (target_position db sid a)"
    unfolding target_position_def using oj by force
  have mem: "?os ! i \<in> set ?os" using i(1) by simp
  have "se_position (?os ! i) \<le> Suc j"
    using \<open>i < j\<close> oi by simp
  with t have "\<exists>t \<in> set (target_position db sid a). se_position (?os ! i) \<le> t"
    by (rule rev_bexI)
  with mem have "?os ! i \<in> set evs"
    unfolding set_getSeriesEventsUpTo [OF res] by blast
  then have "se_id (?os ! i) \<in> set (map se_id evs)" by simp
  with oi show ?thesis by simp
qed

lemma new_video_invalidates:
  assumes stored: "getSeriesEventsUpTo db (seriesId q) (eventId q) = Inr evs"
      "includedEventIds q = map se_id evs"
    and b: "b \<in> set (all_events db)" "ev_id b = eventId q" "ev_series b = Some (seriesId q)"
      "ev_state b = ''ready''"
    and c: "ev_id c \<notin> ev_id ` set (all_events db)" "ev_series c = Some (seriesId q)"
      "ev_state c = ''ready''" "order_key c < order_key b"
    and ins: "all_events db = xs @ ys"
  shows "\<not> isCacheValid (db\<lparr>all_events := xs @ c # ys\<rparr>) q"
proof
  let ?db = "db\<lparr>all_events := xs @ c # ys\<rparr>"
  assume valid: "isCacheValid ?db q"
  then obtain evs' where evs': "getSeriesEventsUpTo ?db (seriesId q) (eventId q) = Inr evs'"
    unfolding isCacheValid_iff by blast
  have "b \<in> set (all_events ?db)" "c \<in> set (all_events ?db)"
    using b(1) ins by auto
  then have "ev_id c \<in> set (map se_id evs')"
    using earlier_video_is_member [OF evs' _ b(2-4) _ c(2-4)] by blast
  then have "ev_id c \<in> set (includedEventIds q)"
    using isCacheValid_same_ids [OF valid evs'] by simp
  then have "ev_id c \<in> ev_id ` set (all_events db)"
    using member_ids_in_store [OF stored(1)] stored(2) by auto
  with c(1) show False by simp
qed

lemma resolver_depends_on_events:
  assumes "all_events db' = all_events db"
    and "fault db' (SelectSeriesEventsUpTo sid a) = fault db (SelectSeriesEventsUpTo sid a)"
  shows "getSeriesEventsUpTo db' sid a = getSeriesEventsUpTo db sid a"
  using assms
  by (simp add: getSeriesEventsUpTo_def pool_query_def target_position_def ordered_events_def
      series_ready_def)


lemma js_sort_eq_iff: "js_sort xs = js_sort ys \<longleftrightarrow> mset xs = mset ys"
proof
  assume "js_sort xs = js_sort ys"
  then have "mset (js_sort xs) = mset (js_sort ys)" by simp
  then show "mset xs = mset ys" by (simp add: js_sort_def)
next
  assume "mset xs = mset ys"
  then show "js_sort xs = js_sort ys"
    unfolding js_sort_def by (intro properties_for_sort) simp_all
qed

text \<open>
  Claim C2. \<^verbatim>\<open>isCacheValid\<close> is true exactly when the resolver, run again for the
  series and the anchor of the stored quiz, succeeds and its ids, sorted, equal the
  sorted stored ids, which is to say that both lists hold the same ids the same number
  of times. An error of the resolver gives false. Hence, when the stored ids are the
  members resolved in a store and a new ready video of the series, with an id of its
  own, is inserted anywhere in the table with a key before the anchor's, the guard
  rejects the stored quiz in the new store.
\<close>

theorem guard_recomputes_members:
  "(isCacheValid db q \<longleftrightarrow>
      (\<exists>evs. getSeriesEventsUpTo db (seriesId q) (eventId q) = Inr evs
             \<and> js_sort (map se_id evs) = js_sort (includedEventIds q)))
   \<and> (\<forall>xs ys. js_sort xs = js_sort ys \<longleftrightarrow> mset xs = mset ys)
   \<and> (\<forall>e. getSeriesEventsUpTo db (seriesId q) (eventId q) = Inl e \<longrightarrow> \<not> isCacheValid db q)
   \<and> (\<forall>evs b c xs ys.
         getSeriesEventsUpTo db (seriesId q) (eventId q) = Inr evs
         \<and> includedEventIds q = map se_id evs
         \<and> b \<in> set (all_events db) \<and> ev_id b = eventId q
         \<and> ev_series b = Some (seriesId q) \<and> ev_state b = ''ready''
         \<and> ev_id c \<notin> ev_id ` set (all_events db)
         \<and> ev_series c = Some (seriesId q) \<and> ev_state c = ''ready''
         \<and> order_key c < order_key b
         \<and> all_events db = xs @ ys
         \<longrightarrow> \<not> isCacheValid (db\<lparr>all_events := xs @ c # ys\<rparr>) q)"
proof (intro conjI allI impI)
  show "isCacheValid db q \<longleftrightarrow>
      (\<exists>evs. getSeriesEventsUpTo db (seriesId q) (eventId q) = Inr evs
             \<and> js_sort (map se_id evs) = js_sort (includedEventIds q))"
    by (rule isCacheValid_iff)
next
  fix xs ys :: "string list"
  show "js_sort xs = js_sort ys \<longleftrightarrow> mset xs = mset ys"
    by (rule js_sort_eq_iff)
next
  fix e assume "getSeriesEventsUpTo db (seriesId q) (eventId q) = Inl e"
  then show "\<not> isCacheValid db q" by (rule isCacheValid_error)
next
  fix evs b c xs ys
  assume h: "getSeriesEventsUpTo db (seriesId q) (eventId q) = Inr evs
         \<and> includedEventIds q = map se_id evs
         \<and> b \<in> set (all_events db) \<and> ev_id b = eventId q
         \<and> ev_series b = Some (seriesId q) \<and> ev_state b = ''ready''
         \<and> ev_id c \<notin> ev_id ` set (all_events db)
         \<and> ev_series c = Some (seriesId q) \<and> ev_state c = ''ready''
         \<and> order_key c < order_key b
         \<and> all_events db = xs @ ys"
  then show "\<not> isCacheValid (db\<lparr>all_events := xs @ c # ys\<rparr>) q"
    using new_video_invalidates [of db q evs b c xs ys] by blast
qed

text \<open>The theorem of C2 at a series of the videos \<^verbatim>\<open>1\<close> and \<^verbatim>\<open>2\<close> and a quiz stored for
  the anchor \<^verbatim>\<open>2\<close>: the guard accepts it, rejects it when the store cannot be reached,
  and rejects it once the video \<^verbatim>\<open>3\<close> is placed between the two.\<close>

theorem guard_recomputes_members_witness:
  "isCacheValid course_store course_quiz
   \<and> getSeriesEventsUpTo (unreachable course_store) ''7'' ''2'' =
       Inl (QueryError ''Connection terminated unexpectedly'')
   \<and> \<not> isCacheValid (unreachable course_store) course_quiz
   \<and> order_key (ready_event ''1'' ''7'' (Some 1) 10) < order_key (ready_event ''3'' ''7'' (Some 2) 30)
   \<and> order_key (ready_event ''3'' ''7'' (Some 2) 30) < order_key (ready_event ''2'' ''7'' (Some 3) 20)
   \<and> \<not> isCacheValid
         (course_store\<lparr>all_events := all_events course_store @ [ready_event ''3'' ''7'' (Some 2) 30]\<rparr>)
         course_quiz"
proof -
  let ?a = "ready_event ''1'' ''7'' (Some 1) 10" and ?b = "ready_event ''2'' ''7'' (Some 3) 20"
    and ?c = "ready_event ''3'' ''7'' (Some 2) 30"
  have ids: "seriesId course_quiz = ''7''" "eventId course_quiz = ''2''"
      "includedEventIds course_quiz = [''1'', ''2'']"
    by (simp_all add: course_quiz_def)
  have events: "all_events course_store = [?a, ?b]"
    by (simp add: course_store_def plain_store_def)
  have members: "getSeriesEventsUpTo course_store ''7'' ''2'' =
      Inr [\<lparr>se_id = ''1'', se_title = ''Video 1'', se_position = 1\<rparr>,
           \<lparr>se_id = ''2'', se_title = ''Video 2'', se_position = 2\<rparr>]"
    by code_simp
  have down: "getSeriesEventsUpTo (unreachable course_store) ''7'' ''2'' =
      Inl (QueryError ''Connection terminated unexpectedly'')"
    by (simp add: getSeriesEventsUpTo_def pool_query_def unreachable_def)
  have keys: "order_key ?a < order_key ?c" "order_key ?c < order_key ?b"
    by (simp_all add: order_key_def hint_key_def ready_event_def)
  note here = guard_recomputes_members [of course_store course_quiz]
  note there = guard_recomputes_members [of "unreachable course_store" course_quiz]
  have "\<exists>evs. getSeriesEventsUpTo course_store (seriesId course_quiz) (eventId course_quiz) = Inr evs
          \<and> js_sort (map se_id evs) = js_sort (includedEventIds course_quiz)"
    by (simp add: ids members js_sort_def)
  with here have valid: "isCacheValid course_store course_quiz"
    by blast
  have "getSeriesEventsUpTo (unreachable course_store) (seriesId course_quiz) (eventId course_quiz)
      = Inl (QueryError ''Connection terminated unexpectedly'')"
    using down by (simp add: ids)
  with there have closed: "\<not> isCacheValid (unreachable course_store) course_quiz"
    by blast
  have "getSeriesEventsUpTo course_store (seriesId course_quiz) (eventId course_quiz) =
          Inr [\<lparr>se_id = ''1'', se_title = ''Video 1'', se_position = 1\<rparr>,
               \<lparr>se_id = ''2'', se_title = ''Video 2'', se_position = 2\<rparr>]
      \<and> includedEventIds course_quiz =
          map se_id [\<lparr>se_id = ''1'', se_title = ''Video 1'', se_position = 1\<rparr>,
                     \<lparr>se_id = ''2'', se_title = ''Video 2'', se_position = 2\<rparr>]
      \<and> ?b \<in> set (all_events course_store) \<and> ev_id ?b = eventId course_quiz
      \<and> ev_series ?b = Some (seriesId course_quiz) \<and> ev_state ?b = ''ready''
      \<and> ev_id ?c \<notin> ev_id ` set (all_events course_store)
      \<and> ev_series ?c = Some (seriesId course_quiz) \<and> ev_state ?c = ''ready''
      \<and> order_key ?c < order_key ?b
      \<and> all_events course_store = all_events course_store @ []"
    using members keys(2) by (simp add: ids events ready_event_def)
  with here have "\<not> isCacheValid (course_store\<lparr>all_events := all_events course_store @ ?c # []\<rparr>) course_quiz"
    by blast
  with valid down closed keys show ?thesis by blast
qed

text \<open>
  Claim C9. Two runs of the guard give the same result whenever the videos of the two
  stores, the fault of the resolver's statement, and the series, anchor and stored ids
  of the two quizzes agree: the stored per-video quizzes and the questions of the
  cumulative quiz, which may all differ, have no influence.
\<close>

theorem guard_ignores_content:
  assumes "all_events db' = all_events db"
    and "fault db' (SelectSeriesEventsUpTo (seriesId q) (eventId q)) =
         fault db (SelectSeriesEventsUpTo (seriesId q) (eventId q))"
    and "seriesId q' = seriesId q" and "eventId q' = eventId q"
    and "includedEventIds q' = includedEventIds q"
  shows "isCacheValid db' q' = isCacheValid db q"
  using assms(3-5) resolver_depends_on_events [OF assms(1,2)]
  by (simp add: isCacheValid_def Let_def split: sum.splits)

text \<open>The theorem of C9 at a store whose per-video quiz was edited and a stored quiz with
  other questions: the guard accepts both.\<close>

theorem guard_ignores_content_witness:
  "isCacheValid
     (course_store\<lparr>ai_quizzes :=
        [\<lparr>qz_event_id = ''1'', qz_language = ''en'',
          qz_quiz_data = JObj [(''questions'',
            JArr [JObj [(''question'', JStr ''What is a multiset?''), (''correct_answer'', JNum 1),
                        (''explanation'', JStr ''corrected by hand'')]])]\<rparr>]\<rparr>)
     (course_quiz\<lparr>questions :=
        [combined_question \<lparr>se_id = ''1'', se_title = ''Video 1'', se_position = 1\<rparr>
           (JObj [(''question'', JStr ''What is a set?''), (''correct_answer'', JNum 0)]) (JNum 0)]\<rparr>)
   = isCacheValid course_store course_quiz
   \<and> isCacheValid course_store course_quiz"
proof -
  let ?db' = "course_store\<lparr>ai_quizzes :=
        [\<lparr>qz_event_id = ''1'', qz_language = ''en'',
          qz_quiz_data = JObj [(''questions'',
            JArr [JObj [(''question'', JStr ''What is a multiset?''), (''correct_answer'', JNum 1),
                        (''explanation'', JStr ''corrected by hand'')]])]\<rparr>]\<rparr>"
  let ?q' = "course_quiz\<lparr>questions :=
        [combined_question \<lparr>se_id = ''1'', se_title = ''Video 1'', se_position = 1\<rparr>
           (JObj [(''question'', JStr ''What is a set?''), (''correct_answer'', JNum 0)]) (JNum 0)]\<rparr>"
  have "isCacheValid ?db' ?q' = isCacheValid course_store course_quiz"
    by (rule guard_ignores_content) simp_all
  moreover have "isCacheValid course_store course_quiz" by code_simp
  ultimately show ?thesis by blast
qed

section \<open>Properties of the Quiz Combiner\<close>

lemma combine_question_defined:
  "q \<noteq> JNull \<Longrightarrow>
   combine_question (Some ev) q = Inr (map_option (combined_question ev q) (resolved_answer q))"
  by (simp add: combine_question_def get_prop_def resolved_answer_def split: option.splits)

lemma combine_questions_eq:
  "JNull \<notin> set qs \<Longrightarrow>
   combine_questions (Some ev) qs =
     Inr (List.map_filter (\<lambda>q. map_option (combined_question ev q) (resolved_answer q)) qs)"
proof (induction qs)
  case Nil
  then show ?case by (simp add: List.map_filter_simps)
next
  case (Cons q qs)
  then have "q \<noteq> JNull" and "JNull \<notin> set qs" by auto
  with Cons.IH show ?case
    by (cases "resolved_answer q") (simp_all add: combine_question_defined List.map_filter_simps)
qed

lemma combine_quiz_eq:
  assumes "JNull \<notin> set (quiz_questions quiz)"
  shows "(case iq_questions quiz of Some (JArr qs) \<Rightarrow> combine_questions (Some ev) qs | _ \<Rightarrow> Inr [])
         = Inr (contribution quiz ev)"
  using assms
  by (auto simp: quiz_questions_def contribution_def combine_questions_eq List.map_filter_simps
      split: option.splits json.splits)

lemma combine_from_eq:
  assumes "index + length quizzes \<le> length events"
    and "\<forall>quiz \<in> set quizzes. JNull \<notin> set (quiz_questions quiz)"
  shows "combine_from index quizzes events =
         Inr (concat (map (\<lambda>(quiz, ev). contribution quiz ev) (zip quizzes (drop index events))))"
  using assms
proof (induction quizzes arbitrary: index)
  case Nil
  then show ?case by simp
next
  case (Cons quiz quizzes)
  from Cons.prems(1) have lt: "index < length events" by simp
  then have drop: "drop index events = events ! index # drop (Suc index) events"
    by (simp add: Cons_nth_drop_Suc)
  from Cons.prems have rest: "combine_from (Suc index) quizzes events =
      Inr (concat (map (\<lambda>(quiz, ev). contribution quiz ev) (zip quizzes (drop (Suc index) events))))"
    by (intro Cons.IH) simp_all
  from Cons.prems(2) have "JNull \<notin> set (quiz_questions quiz)" by simp
  from combine_quiz_eq [OF this] lt rest show ?case
    by (simp add: drop)
qed

lemma combineQuizzes_eq:
  assumes "length quizzes \<le> length events"
    and "\<forall>quiz \<in> set quizzes. JNull \<notin> set (quiz_questions quiz)"
  shows "combineQuizzes quizzes events =
         Inr (concat (map (\<lambda>(quiz, ev). contribution quiz ev) (zip quizzes events)))"
  using combine_from_eq [of 0 quizzes events] assms by (simp add: combineQuizzes_def)

lemma resolved_answer_None:
  "resolved_answer q = None \<longleftrightarrow>
     (js_prop q ''correctAnswer'' = None \<or> js_prop q ''correctAnswer'' = Some JNull)
     \<and> js_prop q ''correct_answer'' = None"
proof (cases "js_prop q ''correctAnswer''")
  case None
  then show ?thesis by (simp add: resolved_answer_def)
next
  case (Some v)
  then show ?thesis by (cases v) (simp_all add: resolved_answer_def)
qed

lemma contribution_sources:
  "map (\<lambda>c. (vc_eventId c, vc_videoNumber c, question c)) (contribution quiz ev) =
   map (\<lambda>q. (se_id ev, se_position ev, js_prop q ''question''))
     (filter (\<lambda>q. resolved_answer q \<noteq> None) (quiz_questions quiz))"
  by (auto simp: contribution_def List.map_filter_def combined_question_def)


text \<open>The combiner at two quizzes, the first with a question that has an answer under
  neither name: that question is left out, the other four keep the order of the videos
  and, within a video, the order of the quiz.\<close>

lemma unanswered_question_is_skipped:
  "(\<exists>cs. combineQuizzes
            [\<lparr>iq_eventId = ''1'',
              iq_questions = Some (JArr [question_at_start, question_unanswered, question_later])\<rparr>,
             \<lparr>iq_eventId = ''2'', iq_questions = Some (JArr [question_later, question_at_start])\<rparr>]
            [first_video, second_video] = Inr cs
         \<and> map (\<lambda>c. (vc_eventId c, question c)) cs =
             [(''1'', Some (JStr ''Q3'')), (''1'', Some (JStr ''Q4'')),
              (''2'', Some (JStr ''Q4'')), (''2'', Some (JStr ''Q3''))])
   \<and> js_prop question_unanswered ''correctAnswer'' = None
   \<and> js_prop question_unanswered ''correct_answer'' = None"
proof -
  let ?quizzes = "[\<lparr>iq_eventId = ''1'',
              iq_questions = Some (JArr [question_at_start, question_unanswered, question_later])\<rparr>,
             \<lparr>iq_eventId = ''2'', iq_questions = Some (JArr [question_later, question_at_start])\<rparr>]"
  have len: "length ?quizzes \<le> length [first_video, second_video]" by simp
  have wf: "\<forall>quiz \<in> set ?quizzes. JNull \<notin> set (quiz_questions quiz)"
    by (simp add: quiz_questions_def question_at_start_def question_unanswered_def question_later_def)
  have "combineQuizzes ?quizzes [first_video, second_video] =
      Inr (concat (map (\<lambda>(quiz, ev). contribution quiz ev) (zip ?quizzes [first_video, second_video])))"
    using len wf by (rule combineQuizzes_eq)
  moreover have "map (\<lambda>c. (vc_eventId c, question c))
      (concat (map (\<lambda>(quiz, ev). contribution quiz ev) (zip ?quizzes [first_video, second_video])))
      = [(''1'', Some (JStr ''Q3'')), (''1'', Some (JStr ''Q4'')),
         (''2'', Some (JStr ''Q4'')), (''2'', Some (JStr ''Q3''))]"
    by (simp add: contribution_def quiz_questions_def List.map_filter_simps resolved_answer_def
        combined_question_def question_at_start_def question_unanswered_def question_later_def
        first_video_def second_video_def)
  moreover have "js_prop question_unanswered ''correctAnswer'' = None"
    "js_prop question_unanswered ''correct_answer'' = None"
    by (simp_all add: question_unanswered_def)
  ultimately show ?thesis by simp
qed

text \<open>
  Claim C4. A question whose correct answer is absent under both \<^verbatim>\<open>correctAnswer\<close> and
  \<^verbatim>\<open>correct_answer\<close> is to be dropped, and the source says as much: the test is
  headed \<^verbatim>\<open>Skip questions without a correct answer\<close>, and \<^verbatim>\<open>??\<close> takes a
  \<^verbatim>\<open>null\<close> under \<^verbatim>\<open>correctAnswer\<close> for no answer. The test itself is
  \<^verbatim>\<open>correctAnswer === undefined\<close>, which a \<^verbatim>\<open>null\<close> coming from
  \<^verbatim>\<open>correct_answer\<close> passes. So \<^verbatim>\<open>combineQuizzes\<close> does not do what the claim
  says at the quiz of video 1 with the questions Q1, \<^verbatim>\<open>correctAnswer: null\<close>, and Q2,
  \<^verbatim>\<open>correct_answer: null\<close>. Neither has a correct answer; Q1 is dropped, and Q2 is
  in the result, with the answer \<^verbatim>\<open>"null"\<close>.
\<close>

theorem null_correct_answer_is_kept:
  "js_prop question_null_camel ''correctAnswer'' = Some JNull
   \<and> js_prop question_null_camel ''correct_answer'' = None
   \<and> js_prop question_null_snake ''correctAnswer'' = None
   \<and> js_prop question_null_snake ''correct_answer'' = Some JNull
   \<and> combineQuizzes
        [\<lparr>iq_eventId = ''1'', iq_questions = Some (JArr [question_null_camel])\<rparr>]
        [first_video]
      = Inr []
   \<and> combineQuizzes
        [\<lparr>iq_eventId = ''1'', iq_questions = Some (JArr [question_null_camel, question_null_snake])\<rparr>]
        [first_video]
      = Inr [\<lparr>question = Some (JStr ''Q2''), questionType = None, options = None,
              correctAnswer = ''null'', explanation = None, difficulty = None,
              vc_eventId = ''1'', vc_videoTitle = ''Video 1'', vc_videoNumber = 1,
              vc_timestamp = None\<rparr>]"
  by (simp add: question_null_camel_def question_null_snake_def first_video_def combineQuizzes_def
      combine_question_def get_prop_def combined_question_def)



section \<open>Properties of the Eligibility Evaluator\<close>

lemma has_quiz_rows:
  "has_quiz db eid lang \<longleftrightarrow>
     length (filter (\<lambda>r. qz_event_id r = eid \<and> qz_language r = lang) (ai_quizzes db)) > 0"
  by (auto simp: has_quiz_def filter_empty_conv)

lemma gate_no_series:
  assumes "\<forall>q. fault db q = None" and "event_with_series db eid = (event, title) # others"
    and "ev_series event = None"
  shows "checkEligibility db eid lang =
           Inr \<lparr>eligible = False, reason = reason_no_series, details = None\<rparr>"
  using assms by (simp add: checkEligibility_def eligibility_steps_def pool_query_def)

lemma gate_no_quiz:
  assumes "\<forall>q. fault db q = None" and "event_with_series db eid = (event, title) # others"
    and "ev_series event = Some sid" and "sid \<noteq> []" and "\<not> has_quiz db eid lang"
  shows "checkEligibility db eid lang =
           Inr \<lparr>eligible = False, reason = reason_no_quiz,
                details = Some \<lparr>d_seriesId = sid, d_seriesTitle = title, d_position = None,
                  d_totalInSeries = None, d_previousVideosWithQuizzes = None, d_hasQuiz = False\<rparr>\<rparr>"
  using assms
  by (simp add: checkEligibility_def eligibility_steps_def pool_query_def has_quiz_rows)

lemma gate_first:
  assumes "\<forall>q. fault db q = None" and "event_with_series db eid = (event, title) # others"
    and "ev_series event = Some sid" and "sid \<noteq> []" and "has_quiz db eid lang"
    and "findIndex (\<lambda>v. se_id v = eid) (ordered_events db sid) = Some 0"
  shows "checkEligibility db eid lang =
           Inr \<lparr>eligible = False, reason = reason_first,
                details = Some \<lparr>d_seriesId = sid, d_seriesTitle = title, d_position = Some 1,
                  d_totalInSeries = Some (length (ordered_events db sid)),
                  d_previousVideosWithQuizzes = Some 0, d_hasQuiz = True\<rparr>\<rparr>"
  using assms
  by (simp add: checkEligibility_def eligibility_steps_def pool_query_def has_quiz_rows)

lemma findIndex_bound: "findIndex P xs = Some i \<Longrightarrow> i < length xs"
  by (induction xs arbitrary: i) (auto split: if_splits)

lemma findIndex_nth: "findIndex P xs = Some i \<Longrightarrow> P (xs ! i) \<and> (\<forall>j < i. \<not> P (xs ! j))"
proof (induction xs arbitrary: i)
  case Nil
  then show ?case by simp
next
  case (Cons x xs)
  show ?case
  proof (cases "P x")
    case True
    with Cons.prems show ?thesis by simp
  next
    case False
    with Cons.prems obtain k where k: "findIndex P xs = Some k" "i = Suc k" by auto
    from Cons.IH [OF k(1)] False k(2) show ?thesis
      by (auto simp: nth_Cons split: nat.splits)
  qed
qed

lemma gate_no_previous:
  assumes "\<forall>q. fault db q = None" and "event_with_series db eid = (event, title) # others"
    and "ev_series event = Some sid" and "sid \<noteq> []" and "has_quiz db eid lang"
    and "findIndex (\<lambda>v. se_id v = eid) (ordered_events db sid) = Some i" and "0 < i"
    and "previous_quizzes db (map se_id (take i (ordered_events db sid))) lang = []"
  shows "checkEligibility db eid lang =
           Inr \<lparr>eligible = False, reason = reason_no_previous,
                details = Some \<lparr>d_seriesId = sid, d_seriesTitle = title, d_position = Some (i + 1),
                  d_totalInSeries = Some (length (ordered_events db sid)),
                  d_previousVideosWithQuizzes = Some 0, d_hasQuiz = True\<rparr>\<rparr>"
proof -
  from assms(6) have "i < length (ordered_events db sid)" by (rule findIndex_bound)
  with assms(7) have "length (take i (ordered_events db sid)) \<noteq> 0" by simp
  with assms show ?thesis
    by (simp add: checkEligibility_def eligibility_steps_def pool_query_def has_quiz_rows Let_def
        del: length_take)
qed

lemma gate_eligible:
  assumes "\<forall>q. fault db q = None" and "event_with_series db eid = (event, title) # others"
    and "ev_series event = Some sid" and "sid \<noteq> []" and "has_quiz db eid lang"
    and "findIndex (\<lambda>v. se_id v = eid) (ordered_events db sid) = Some i" and "0 < i"
    and "previous_quizzes db (map se_id (take i (ordered_events db sid))) lang \<noteq> []"
  shows "checkEligibility db eid lang =
           Inr \<lparr>eligible = True,
                reason = reason_eligible (i + 1) (length (ordered_events db sid))
                  (length (previous_quizzes db (map se_id (take i (ordered_events db sid))) lang)),
                details = Some \<lparr>d_seriesId = sid, d_seriesTitle = title, d_position = Some (i + 1),
                  d_totalInSeries = Some (length (ordered_events db sid)),
                  d_previousVideosWithQuizzes =
                    Some (length (previous_quizzes db (map se_id (take i (ordered_events db sid))) lang)),
                  d_hasQuiz = True\<rparr>\<rparr>"
proof -
  from assms(6) have "i < length (ordered_events db sid)" by (rule findIndex_bound)
  with assms(7) have "length (take i (ordered_events db sid)) \<noteq> 0" by simp
  with assms show ?thesis
    by (simp add: checkEligibility_def eligibility_steps_def pool_query_def has_quiz_rows Let_def
        del: length_take)
qed

lemma reasons_distinct: "distinct gate_reasons"
  by (simp add: gate_reasons_def reason_not_found_def reason_no_series_def reason_no_quiz_def
      reason_no_position_def reason_first_def reason_no_previous_def)

lemma reason_eligible_fresh: "reason_eligible p t n \<notin> set gate_reasons"
  by (simp add: gate_reasons_def reason_eligible_def reason_not_found_def reason_no_series_def
      reason_no_quiz_def reason_no_position_def reason_first_def reason_no_previous_def)

lemma steps_error:
  "eligibility_steps db eid lang = Inl e \<Longrightarrow> \<exists>q m. fault db q = Some m \<and> e = QueryError m"
  unfolding eligibility_steps_def pool_query_def Let_def
  by (auto split: option.splits list.splits sum.splits if_splits prod.splits)

lemma steps_result:
  "eligibility_steps db eid lang = Inr r \<Longrightarrow>
     eligible r \<or> reason r \<in> set gate_reasons"
  unfolding eligibility_steps_def pool_query_def Let_def gate_reasons_def
  by (auto split: option.splits list.splits sum.splits if_splits prod.splits)

lemma steps_total:
  "\<forall>q. fault db q = None \<Longrightarrow> \<exists>r. eligibility_steps db eid lang = Inr r"
  unfolding eligibility_steps_def pool_query_def Let_def
  by (auto split: option.splits list.splits sum.splits if_splits prod.splits)


lemma gate_no_position:
  assumes "\<forall>q. fault db q = None" and "event_with_series db eid = (event, title) # others"
    and "ev_series event = Some sid" and "sid \<noteq> []" and "has_quiz db eid lang"
    and "findIndex (\<lambda>v. se_id v = eid) (ordered_events db sid) = None"
  shows "checkEligibility db eid lang =
           Inr \<lparr>eligible = False, reason = reason_no_position,
                details = Some \<lparr>d_seriesId = sid, d_seriesTitle = title, d_position = None,
                  d_totalInSeries = None, d_previousVideosWithQuizzes = None, d_hasQuiz = True\<rparr>\<rparr>"
  using assms
  by (simp add: checkEligibility_def eligibility_steps_def pool_query_def has_quiz_rows)

lemma eligible_only_if:
  assumes nofault: "\<forall>q. fault db q = None"
    and found: "event_with_series db eid = (event, title) # others"
    and res: "checkEligibility db eid lang = Inr r" and el: "eligible r"
  shows "\<exists>sid i. ev_series event = Some sid \<and> has_quiz db eid lang
           \<and> findIndex (\<lambda>v. se_id v = eid) (ordered_events db sid) = Some i \<and> 0 < i
           \<and> previous_quizzes db (map se_id (take i (ordered_events db sid))) lang \<noteq> []"
proof (cases "ev_series event")
  case None
  from gate_no_series [OF nofault found None, of lang] res el show ?thesis by auto
next
  case (Some sid)
  note sid = this
  show ?thesis
  proof (cases "sid = []")
    case True
    with nofault found sid res
    have "r = \<lparr>eligible = False, reason = reason_no_series, details = None\<rparr>"
      by (simp add: checkEligibility_def eligibility_steps_def pool_query_def)
    with el show ?thesis by simp
  next
    case nonempty: False
    show ?thesis
    proof (cases "has_quiz db eid lang")
      case False
      from gate_no_quiz [OF nofault found sid nonempty False] res el show ?thesis by auto
    next
      case quiz: True
      show ?thesis
      proof (cases "findIndex (\<lambda>v. se_id v = eid) (ordered_events db sid)")
        case None
        from gate_no_position [OF nofault found sid nonempty quiz None] res el show ?thesis by auto
      next
        case (Some i)
        note idx = this
        show ?thesis
        proof (cases "i = 0")
          case True
          with gate_first [OF nofault found sid nonempty quiz] idx res el show ?thesis by auto
        next
          case False
          then have pos: "0 < i" by simp
          show ?thesis
          proof (cases "previous_quizzes db (map se_id (take i (ordered_events db sid))) lang = []")
            case True
            from gate_no_previous [OF nofault found sid nonempty quiz idx pos True] res el
            show ?thesis by auto
          next
            case False
            with sid quiz idx pos show ?thesis by blast
          qed
        qed
      qed
    qed
  qed
qed

lemma previous_quizzes_count:
  "length (previous_quizzes db ids lang) = card {x \<in> set ids. has_quiz db x lang}"
proof -
  have "set (map qz_event_id
          (filter (\<lambda>r. qz_event_id r \<in> set ids \<and> qz_language r = lang) (ai_quizzes db)))
        = {x \<in> set ids. has_quiz db x lang}"
    by (auto simp: has_quiz_def)
  then show ?thesis
    by (simp add: previous_quizzes_def length_remdups_card_conv del: set_map)
qed

lemma position_of_found:
  assumes "findIndex (\<lambda>v. se_id v = eid) (ordered_events db sid) = Some i"
  shows "se_id (ordered_events db sid ! i) = eid \<and> se_position (ordered_events db sid ! i) = i + 1"
proof -
  from assms have "i < length (ordered_events db sid)" by (rule findIndex_bound)
  then have "se_position (ordered_events db sid ! i) = i + 1"
    by (simp add: ordered_events_nth)
  with findIndex_nth [OF assms] show ?thesis by simp
qed

text \<open>
  Claim C3. When the store rejects no statement and the video is found ready,
  \<^verbatim>\<open>checkEligibility\<close> answers by the first gate that fails: no series, whether or not
  a quiz is stored for the video; else no quiz of its own; else first in the resolved
  order of its series; else no earlier video with a quiz. Each answer has its own
  reason. It answers eligible in the remaining case and in no other, and then reports
  the position, which is the resolver's position of the video and counts from 1, the
  number of ready videos of the series, and the number of earlier videos with a quiz.
\<close>

theorem eligibility_gates:
  assumes "\<forall>q. fault db q = None"
    and "event_with_series db eid = (event, title) # others"
  shows "(ev_series event = None \<longrightarrow>
            checkEligibility db eid lang =
              Inr \<lparr>eligible = False, reason = reason_no_series, details = None\<rparr>)
       \<and> (\<forall>sid. ev_series event = Some sid \<and> sid \<noteq> [] \<and> \<not> has_quiz db eid lang \<longrightarrow>
            checkEligibility db eid lang =
              Inr \<lparr>eligible = False, reason = reason_no_quiz,
                   details = Some \<lparr>d_seriesId = sid, d_seriesTitle = title, d_position = None,
                     d_totalInSeries = None, d_previousVideosWithQuizzes = None,
                     d_hasQuiz = False\<rparr>\<rparr>)
       \<and> (\<forall>sid. ev_series event = Some sid \<and> sid \<noteq> [] \<and> has_quiz db eid lang
              \<and> findIndex (\<lambda>v. se_id v = eid) (ordered_events db sid) = Some 0 \<longrightarrow>
            checkEligibility db eid lang =
              Inr \<lparr>eligible = False, reason = reason_first,
                   details = Some \<lparr>d_seriesId = sid, d_seriesTitle = title, d_position = Some 1,
                     d_totalInSeries = Some (length (ordered_events db sid)),
                     d_previousVideosWithQuizzes = Some 0, d_hasQuiz = True\<rparr>\<rparr>)
       \<and> (\<forall>sid i. ev_series event = Some sid \<and> sid \<noteq> [] \<and> has_quiz db eid lang
              \<and> findIndex (\<lambda>v. se_id v = eid) (ordered_events db sid) = Some i \<and> 0 < i
              \<and> previous_quizzes db (map se_id (take i (ordered_events db sid))) lang = [] \<longrightarrow>
            checkEligibility db eid lang =
              Inr \<lparr>eligible = False, reason = reason_no_previous,
                   details = Some \<lparr>d_seriesId = sid, d_seriesTitle = title,
                     d_position = Some (i + 1),
                     d_totalInSeries = Some (length (ordered_events db sid)),
                     d_previousVideosWithQuizzes = Some 0, d_hasQuiz = True\<rparr>\<rparr>)
       \<and> (\<forall>sid i. ev_series event = Some sid \<and> sid \<noteq> [] \<and> has_quiz db eid lang
              \<and> findIndex (\<lambda>v. se_id v = eid) (ordered_events db sid) = Some i \<and> 0 < i
              \<and> previous_quizzes db (map se_id (take i (ordered_events db sid))) lang \<noteq> [] \<longrightarrow>
            checkEligibility db eid lang =
              Inr \<lparr>eligible = True,
                   reason = reason_eligible (i + 1) (length (ordered_events db sid))
                     (length (previous_quizzes db (map se_id (take i (ordered_events db sid))) lang)),
                   details = Some \<lparr>d_seriesId = sid, d_seriesTitle = title,
                     d_position = Some (i + 1),
                     d_totalInSeries = Some (length (ordered_events db sid)),
                     d_previousVideosWithQuizzes =
                       Some (length (previous_quizzes db
                               (map se_id (take i (ordered_events db sid))) lang)),
                     d_hasQuiz = True\<rparr>\<rparr>)
       \<and> (\<forall>r. checkEligibility db eid lang = Inr r \<and> eligible r \<longrightarrow>
            (\<exists>sid i. ev_series event = Some sid \<and> has_quiz db eid lang
               \<and> findIndex (\<lambda>v. se_id v = eid) (ordered_events db sid) = Some i \<and> 0 < i
               \<and> previous_quizzes db (map se_id (take i (ordered_events db sid))) lang \<noteq> []))
       \<and> (\<forall>sid i. findIndex (\<lambda>v. se_id v = eid) (ordered_events db sid) = Some i \<longrightarrow>
            se_id (ordered_events db sid ! i) = eid
            \<and> se_position (ordered_events db sid ! i) = i + 1)
       \<and> (\<forall>ids. length (previous_quizzes db ids lang) = card {x \<in> set ids. has_quiz db x lang})
       \<and> distinct gate_reasons
       \<and> (\<forall>p t n. reason_eligible p t n \<notin> set gate_reasons)"
proof (intro conjI allI impI)
  assume "ev_series event = None"
  with assms show "checkEligibility db eid lang =
      Inr \<lparr>eligible = False, reason = reason_no_series, details = None\<rparr>"
    by (rule gate_no_series)
next
  fix sid
  assume "ev_series event = Some sid \<and> sid \<noteq> [] \<and> \<not> has_quiz db eid lang"
  with assms show "checkEligibility db eid lang =
      Inr \<lparr>eligible = False, reason = reason_no_quiz,
           details = Some \<lparr>d_seriesId = sid, d_seriesTitle = title, d_position = None,
             d_totalInSeries = None, d_previousVideosWithQuizzes = None, d_hasQuiz = False\<rparr>\<rparr>"
    by (intro gate_no_quiz) blast+
next
  fix sid
  assume "ev_series event = Some sid \<and> sid \<noteq> [] \<and> has_quiz db eid lang
              \<and> findIndex (\<lambda>v. se_id v = eid) (ordered_events db sid) = Some 0"
  with assms show "checkEligibility db eid lang =
      Inr \<lparr>eligible = False, reason = reason_first,
           details = Some \<lparr>d_seriesId = sid, d_seriesTitle = title, d_position = Some 1,
             d_totalInSeries = Some (length (ordered_events db sid)),
             d_previousVideosWithQuizzes = Some 0, d_hasQuiz = True\<rparr>\<rparr>"
    by (intro gate_first) blast+
next
  fix sid i
  assume "ev_series event = Some sid \<and> sid \<noteq> [] \<and> has_quiz db eid lang
              \<and> findIndex (\<lambda>v. se_id v = eid) (ordered_events db sid) = Some i \<and> 0 < i
              \<and> previous_quizzes db (map se_id (take i (ordered_events db sid))) lang = []"
  with assms show "checkEligibility db eid lang =
      Inr \<lparr>eligible = False, reason = reason_no_previous,
           details = Some \<lparr>d_seriesId = sid, d_seriesTitle = title, d_position = Some (i + 1),
             d_totalInSeries = Some (length (ordered_events db sid)),
             d_previousVideosWithQuizzes = Some 0, d_hasQuiz = True\<rparr>\<rparr>"
    by (intro gate_no_previous) blast+
next
  fix sid i
  assume "ev_series event = Some sid \<and> sid \<noteq> [] \<and> has_quiz db eid lang
              \<and> findIndex (\<lambda>v. se_id v = eid) (ordered_events db sid) = Some i \<and> 0 < i
              \<and> previous_quizzes db (map se_id (take i (ordered_events db sid))) lang \<noteq> []"
  with assms show "checkEligibility db eid lang =
      Inr \<lparr>eligible = True,
           reason = reason_eligible (i + 1) (length (ordered_events db sid))
             (length (previous_quizzes db (map se_id (take i (ordered_events db sid))) lang)),
           details = Some \<lparr>d_seriesId = sid, d_seriesTitle = title, d_position = Some (i + 1),
             d_totalInSeries = Some (length (ordered_events db sid)),
             d_previousVideosWithQuizzes =
               Some (length (previous_quizzes db (map se_id (take i (ordered_events db sid))) lang)),
             d_hasQuiz = True\<rparr>\<rparr>"
    by (intro gate_eligible) blast+
next
  fix r
  assume "checkEligibility db eid lang = Inr r \<and> eligible r"
  with assms show "\<exists>sid i. ev_series event = Some sid \<and> has_quiz db eid lang
               \<and> findIndex (\<lambda>v. se_id v = eid) (ordered_events db sid) = Some i \<and> 0 < i
               \<and> previous_quizzes db (map se_id (take i (ordered_events db sid))) lang \<noteq> []"
    by (intro eligible_only_if) blast+
next
  fix sid i
  assume "findIndex (\<lambda>v. se_id v = eid) (ordered_events db sid) = Some i"
  then show "se_id (ordered_events db sid ! i) = eid"
    and "se_position (ordered_events db sid ! i) = i + 1"
    using position_of_found by blast+
next
  fix ids
  show "length (previous_quizzes db ids lang) = card {x \<in> set ids. has_quiz db x lang}"
    by (rule previous_quizzes_count)
next
  show "distinct gate_reasons" by (rule reasons_distinct)
next
  fix p t n
  show "reason_eligible p t n \<notin> set gate_reasons" by (rule reason_eligible_fresh)
qed


text \<open>The theorem of C3 at the example series: one video for each gate and one that is
  eligible.\<close>

theorem eligibility_gates_witness:
  "\<not> has_quiz semester_store ''40'' ''en''
   \<and> checkEligibility semester_store ''40'' ''en'' =
       Inr \<lparr>eligible = False, reason = reason_no_series, details = None\<rparr>
   \<and> checkEligibility semester_store ''31'' ''en'' =
       Inr \<lparr>eligible = False, reason = reason_no_quiz,
            details = Some \<lparr>d_seriesId = ''5'', d_seriesTitle = Some ''Algebra'', d_position = None,
              d_totalInSeries = None, d_previousVideosWithQuizzes = None, d_hasQuiz = False\<rparr>\<rparr>
   \<and> checkEligibility (with_first_quiz semester_store) ''31'' ''en'' =
       Inr \<lparr>eligible = False, reason = reason_first,
            details = Some \<lparr>d_seriesId = ''5'', d_seriesTitle = Some ''Algebra'', d_position = Some 1,
              d_totalInSeries = Some 3, d_previousVideosWithQuizzes = Some 0, d_hasQuiz = True\<rparr>\<rparr>
   \<and> checkEligibility semester_store ''32'' ''en'' =
       Inr \<lparr>eligible = False, reason = reason_no_previous,
            details = Some \<lparr>d_seriesId = ''5'', d_seriesTitle = Some ''Algebra'', d_position = Some 2,
              d_totalInSeries = Some 3, d_previousVideosWithQuizzes = Some 0, d_hasQuiz = True\<rparr>\<rparr>
   \<and> checkEligibility semester_store ''33'' ''en'' =
       Inr \<lparr>eligible = True, reason = reason_eligible 3 3 1,
            details = Some \<lparr>d_seriesId = ''5'', d_seriesTitle = Some ''Algebra'', d_position = Some 3,
              d_totalInSeries = Some 3, d_previousVideosWithQuizzes = Some 1, d_hasQuiz = True\<rparr>\<rparr>"
proof -
  let ?v40 = "\<lparr>ev_id = ''40'', ev_series = None, ev_title = ''Video 40'', ev_state = ''ready'',
          ev_order = None, ev_created = 40\<rparr>"
  have nofault: "\<forall>q. fault semester_store q = None"
    and nofault': "\<forall>q. fault (with_first_quiz semester_store) q = None"
    by (simp_all add: semester_store_def with_first_quiz_def)
  have found40: "event_with_series semester_store ''40'' = (?v40, None) # []"
    and found31: "event_with_series semester_store ''31'' =
        (ready_event ''31'' ''5'' (Some 1) 10, Some ''Algebra'') # []"
    and found31': "event_with_series (with_first_quiz semester_store) ''31'' =
        (ready_event ''31'' ''5'' (Some 1) 10, Some ''Algebra'') # []"
    and found32: "event_with_series semester_store ''32'' =
        (ready_event ''32'' ''5'' (Some 2) 20, Some ''Algebra'') # []"
    and found33: "event_with_series semester_store ''33'' =
        (ready_event ''33'' ''5'' (Some 3) 30, Some ''Algebra'') # []"
    by code_simp+
  have len: "length (ordered_events semester_store ''5'') = 3"
      "length (ordered_events (with_first_quiz semester_store) ''5'') = 3"
    by code_simp+
  have prev: "length (previous_quizzes semester_store
      (map se_id (take 2 (ordered_events semester_store ''5''))) ''en'') = 1"
    by code_simp
  have no_quiz40: "\<not> has_quiz semester_store ''40'' ''en''"
    by code_simp
  have h40: "ev_series ?v40 = None" by simp
  have h31: "ev_series (ready_event ''31'' ''5'' (Some 1) 10) = Some ''5'' \<and> ''5'' \<noteq> []
      \<and> \<not> has_quiz semester_store ''31'' ''en''"
    by code_simp
  have h31': "ev_series (ready_event ''31'' ''5'' (Some 1) 10) = Some ''5'' \<and> ''5'' \<noteq> []
      \<and> has_quiz (with_first_quiz semester_store) ''31'' ''en''
      \<and> findIndex (\<lambda>v. se_id v = ''31'') (ordered_events (with_first_quiz semester_store) ''5'') = Some 0"
    by code_simp
  have h32: "ev_series (ready_event ''32'' ''5'' (Some 2) 20) = Some ''5'' \<and> ''5'' \<noteq> []
      \<and> has_quiz semester_store ''32'' ''en''
      \<and> findIndex (\<lambda>v. se_id v = ''32'') (ordered_events semester_store ''5'') = Some 1 \<and> 0 < (1::nat)
      \<and> previous_quizzes semester_store (map se_id (take 1 (ordered_events semester_store ''5''))) ''en'' = []"
    by code_simp
  have h33: "ev_series (ready_event ''33'' ''5'' (Some 3) 30) = Some ''5'' \<and> ''5'' \<noteq> []
      \<and> has_quiz semester_store ''33'' ''en''
      \<and> findIndex (\<lambda>v. se_id v = ''33'') (ordered_events semester_store ''5'') = Some 2 \<and> 0 < (2::nat)
      \<and> previous_quizzes semester_store (map se_id (take 2 (ordered_events semester_store ''5''))) ''en'' \<noteq> []"
    by code_simp
  note g40 = eligibility_gates [OF nofault found40, of "''en''"]
  note g31 = eligibility_gates [OF nofault found31, of "''en''"]
  note g31' = eligibility_gates [OF nofault' found31', of "''en''"]
  note g32 = eligibility_gates [OF nofault found32, of "''en''"]
  note g33 = eligibility_gates [OF nofault found33, of "''en''"]
  from g40 h40 have r40: "checkEligibility semester_store ''40'' ''en'' =
       Inr \<lparr>eligible = False, reason = reason_no_series, details = None\<rparr>"
    by blast
  from g31 [THEN conjunct2, THEN conjunct1, rule_format, OF h31]
  have r31: "checkEligibility semester_store ''31'' ''en'' =
       Inr \<lparr>eligible = False, reason = reason_no_quiz,
            details = Some \<lparr>d_seriesId = ''5'', d_seriesTitle = Some ''Algebra'', d_position = None,
              d_totalInSeries = None, d_previousVideosWithQuizzes = None, d_hasQuiz = False\<rparr>\<rparr>" .
  from g31' [THEN conjunct2, THEN conjunct2, THEN conjunct1, rule_format, OF h31']
  have r31': "checkEligibility (with_first_quiz semester_store) ''31'' ''en'' =
       Inr \<lparr>eligible = False, reason = reason_first,
            details = Some \<lparr>d_seriesId = ''5'', d_seriesTitle = Some ''Algebra'', d_position = Some 1,
              d_totalInSeries = Some 3, d_previousVideosWithQuizzes = Some 0, d_hasQuiz = True\<rparr>\<rparr>"
    by (simp only: len)
  from g32 [THEN conjunct2, THEN conjunct2, THEN conjunct2, THEN conjunct1, rule_format, OF h32]
  have r32: "checkEligibility semester_store ''32'' ''en'' =
       Inr \<lparr>eligible = False, reason = reason_no_previous,
            details = Some \<lparr>d_seriesId = ''5'', d_seriesTitle = Some ''Algebra'', d_position = Some 2,
              d_totalInSeries = Some 3, d_previousVideosWithQuizzes = Some 0, d_hasQuiz = True\<rparr>\<rparr>"
    by (simp add: len del: length_ordered_events)
  from g33 [THEN conjunct2, THEN conjunct2, THEN conjunct2, THEN conjunct2, THEN conjunct1,
      rule_format, OF h33]
  have r33: "checkEligibility semester_store ''33'' ''en'' =
       Inr \<lparr>eligible = True, reason = reason_eligible 3 3 1,
            details = Some \<lparr>d_seriesId = ''5'', d_seriesTitle = Some ''Algebra'', d_position = Some 3,
              d_totalInSeries = Some 3, d_previousVideosWithQuizzes = Some 1, d_hasQuiz = True\<rparr>\<rparr>"
    by (simp add: len prev del: length_ordered_events)
  from no_quiz40 r40 r31 r31' r32 r33 show ?thesis by blast
qed


lemma gate_reasons_no_error: "''Error checking eligibility: '' @ m \<notin> set gate_reasons"
  by (simp add: gate_reasons_def reason_not_found_def reason_no_series_def reason_no_quiz_def
      reason_no_position_def reason_first_def reason_no_previous_def)

lemma reason_eligible_no_error: "reason_eligible p t n \<noteq> ''Error checking eligibility: '' @ m"
  by (simp add: reason_eligible_def)

lemma steps_reason_kind:
  "eligibility_steps db eid lang = Inr r \<Longrightarrow>
     reason r \<in> set gate_reasons \<or> (\<exists>p t n. reason r = reason_eligible p t n)"
  unfolding eligibility_steps_def pool_query_def Let_def gate_reasons_def
  by (auto split: option.splits list.splits sum.splits if_splits prod.splits) blast+

lemma error_reason_is_fault:
  assumes "checkEligibility db eid lang = Inr r"
    and "reason r = ''Error checking eligibility: '' @ m"
  shows "\<exists>q. fault db q = Some m"
proof (cases "eligibility_steps db eid lang")
  case (Inl e)
  with steps_error obtain q m' where f: "fault db q = Some m'" "e = QueryError m'" by blast
  with Inl assms have "m = m'" by (auto simp: checkEligibility_def)
  with f show ?thesis by blast
next
  case (Inr r')
  with assms(1) have "r' = r" by (simp add: checkEligibility_def)
  with Inr steps_reason_kind have "reason r \<in> set gate_reasons \<or> (\<exists>p t n. reason r = reason_eligible p t n)"
    by blast
  with assms(2) gate_reasons_no_error [of m] reason_eligible_no_error show ?thesis
    by metis
qed

text \<open>
  Claim C7. \<^verbatim>\<open>checkEligibility\<close> always returns a result, whatever the store does. The
  only exceptions inside its \<^verbatim>\<open>try\<close> block are statements the store rejects, and
  each is returned as a result that is not eligible and carries the store's message;
  every other result is eligible or has the reason of a gate. A store that rejects
  nothing gives no exception, and a result with the reason of an error is returned only
  when the store has rejected a statement with that message.
\<close>

theorem eligibility_never_throws:
  "(\<exists>r. checkEligibility db eid lang = Inr r)
   \<and> (\<forall>e. eligibility_steps db eid lang = Inl e \<longrightarrow>
         (\<exists>q m. fault db q = Some m \<and> e = QueryError m
            \<and> checkEligibility db eid lang =
                Inr \<lparr>eligible = False, reason = ''Error checking eligibility: '' @ m,
                     details = None\<rparr>))
   \<and> (\<forall>r. eligibility_steps db eid lang = Inr r \<longrightarrow>
         checkEligibility db eid lang = Inr r \<and> (eligible r \<or> reason r \<in> set gate_reasons))
   \<and> ((\<forall>q. fault db q = None) \<longrightarrow> (\<exists>r. eligibility_steps db eid lang = Inr r))
   \<and> (\<forall>r m. checkEligibility db eid lang = Inr r
          \<and> reason r = ''Error checking eligibility: '' @ m \<longrightarrow> (\<exists>q. fault db q = Some m))"
proof (intro conjI allI impI)
  show "\<exists>r. checkEligibility db eid lang = Inr r"
    by (cases "eligibility_steps db eid lang") (simp_all add: checkEligibility_def)
next
  fix e assume e: "eligibility_steps db eid lang = Inl e"
  then obtain q m where "fault db q = Some m" "e = QueryError m"
    using steps_error by blast
  with e show "\<exists>q m. fault db q = Some m \<and> e = QueryError m
            \<and> checkEligibility db eid lang =
                Inr \<lparr>eligible = False, reason = ''Error checking eligibility: '' @ m,
                     details = None\<rparr>"
    by (auto simp: checkEligibility_def)
next
  fix r assume "eligibility_steps db eid lang = Inr r"
  then show "checkEligibility db eid lang = Inr r" and "eligible r \<or> reason r \<in> set gate_reasons"
    using steps_result by (simp_all add: checkEligibility_def)
next
  assume "\<forall>q. fault db q = None"
  then show "\<exists>r. eligibility_steps db eid lang = Inr r" by (rule steps_total)
next
  fix r m
  assume "checkEligibility db eid lang = Inr r \<and> reason r = ''Error checking eligibility: '' @ m"
  then show "\<exists>q. fault db q = Some m"
    using error_reason_is_fault by blast
qed

text \<open>The theorem of C7 at a store that cannot be reached and at the example store.\<close>

theorem eligibility_never_throws_witness:
  "eligibility_steps (unreachable semester_store) ''33'' ''en'' =
     Inl (QueryError ''Connection terminated unexpectedly'')
   \<and> checkEligibility (unreachable semester_store) ''33'' ''en'' =
       Inr \<lparr>eligible = False,
            reason = ''Error checking eligibility: Connection terminated unexpectedly'',
            details = None\<rparr>
   \<and> (\<forall>q. fault semester_store q = None)
   \<and> (\<exists>r. checkEligibility semester_store ''32'' ''en'' = Inr r \<and> \<not> eligible r
          \<and> reason r \<in> set gate_reasons)"
proof -
  have down: "eligibility_steps (unreachable semester_store) ''33'' ''en'' =
      Inl (QueryError ''Connection terminated unexpectedly'')"
    by (simp add: eligibility_steps_def pool_query_def unreachable_def)
  note there = eligibility_never_throws [of "unreachable semester_store" "''33''" "''en''"]
  from there down obtain q m where
    "QueryError ''Connection terminated unexpectedly'' = QueryError m"
    "checkEligibility (unreachable semester_store) ''33'' ''en'' =
       Inr \<lparr>eligible = False, reason = ''Error checking eligibility: '' @ m, details = None\<rparr>"
    by blast
  then have reported: "checkEligibility (unreachable semester_store) ''33'' ''en'' =
       Inr \<lparr>eligible = False,
            reason = ''Error checking eligibility: Connection terminated unexpectedly'',
            details = None\<rparr>"
    by simp
  have nofault: "\<forall>q. fault semester_store q = None"
    by (simp add: semester_store_def)
  note here = eligibility_never_throws [of semester_store "''32''" "''en''"]
  from here nofault obtain r where r: "eligibility_steps semester_store ''32'' ''en'' = Inr r"
    by blast
  with here have "checkEligibility semester_store ''32'' ''en'' = Inr r"
    and "eligible r \<or> reason r \<in> set gate_reasons"
    by blast+
  moreover have "checkEligibility semester_store ''32'' ''en'' =
       Inr \<lparr>eligible = False, reason = reason_no_previous,
            details = Some \<lparr>d_seriesId = ''5'', d_seriesTitle = Some ''Algebra'', d_position = Some 2,
              d_totalInSeries = Some 3, d_previousVideosWithQuizzes = Some 0, d_hasQuiz = True\<rparr>\<rparr>"
    by code_simp
  ultimately have "\<exists>r. checkEligibility semester_store ''32'' ''en'' = Inr r \<and> \<not> eligible r
          \<and> reason r \<in> set gate_reasons"
    by auto
  with down reported nofault show ?thesis by blast
qed

section \<open>Properties of the Aggregation Orchestrator\<close>


























end
